theory Spec2Isabelle
  imports Main
begin

section \<open>Python values the ticket handlers compute with\<close>

text \<open>
  A Python \<open>str\<close> is modelled as a \<open>string\<close>, one \<open>char\<close> per character of the text
  (the Latin-1 range). \<open>isspace\<close> is \<open>str.isspace\<close> on that range, \<open>strip\<close> is
  \<open>str.strip()\<close> with no argument, and \<open>or_empty\<close> is the idiom
  \<open>(request.form.get(k) or "")\<close>.
\<close>

definition isspace :: "char \<Rightarrow> bool" where
  "isspace c = (let n = (of_char c :: nat) in
     (9 \<le> n \<and> n \<le> 13) \<or> (28 \<le> n \<and> n \<le> 32) \<or> n = 133 \<or> n = 160)"

definition strip :: "string \<Rightarrow> string" where
  "strip s = rev (dropWhile isspace (rev (dropWhile isspace s)))"

definition or_empty :: "string option \<Rightarrow> string" where
  "or_empty v = (case v of None \<Rightarrow> [] | Some s \<Rightarrow> s)"

text \<open>\<open>s.split("\n")[0]\<close>: the text before the first line feed.\<close>

definition first_line :: "string \<Rightarrow> string" where
  "first_line s = takeWhile (\<lambda>c. c \<noteq> CHR 0x0A) s"

text \<open>
  Decimal rendering of integers: \<open>str_int\<close> is \<open>str(i)\<close> (and \<open>{i}\<close> in an f-string),
  \<open>zfill\<close> pads on the left with zeros up to a minimum width, \<open>format_03d\<close> is the format
  specification \<open>{i:03d}\<close>, whose width 3 counts the sign.
\<close>

definition digit_char :: "nat \<Rightarrow> char" where
  "digit_char k = ''0123456789'' ! (k mod 10)"

fun digits :: "nat \<Rightarrow> string" where
  "digits n = (if n < 10 then [digit_char n] else digits (n div 10) @ [digit_char (n mod 10)])"

declare digits.simps [simp del]

definition str_int :: "int \<Rightarrow> string" where
  "str_int i = (if i < 0 then CHR ''-'' # digits (nat (- i)) else digits (nat i))"

definition zfill :: "nat \<Rightarrow> string \<Rightarrow> string" where
  "zfill w s = replicate (w - length s) (CHR ''0'') @ s"

definition format_03d :: "int \<Rightarrow> string" where
  "format_03d i = (if i < 0 then CHR ''-'' # zfill 2 (digits (nat (- i))) else zfill 3 (digits (nat i)))"

section \<open>Dates and times\<close>

text \<open>
  A \<open>datetime\<close> carries its calendar fields and, when it is aware, the UTC offset of its
  \<open>tzinfo\<close> in minutes; \<open>None\<close> is a naive value. \<open>WIB\<close> is
  \<open>timezone(timedelta(hours=7))\<close>.
\<close>

record datetime =
  year :: nat
  month :: nat
  day :: nat
  hour :: nat
  minute :: nat
  second :: nat
  tzinfo :: "int option"

definition WIB :: int where
  "WIB = 7 * 60"

text \<open>
  The calendar of the \<open>datetime\<close> library: the day after and the day before a date.
\<close>

definition is_leap :: "nat \<Rightarrow> bool" where
  "is_leap y = (y mod 4 = 0 \<and> (y mod 100 \<noteq> 0 \<or> y mod 400 = 0))"

definition days_in_month :: "nat \<Rightarrow> nat \<Rightarrow> nat" where
  "days_in_month y m =
     (if m = 2 then (if is_leap y then 29 else 28)
      else if m = 4 \<or> m = 6 \<or> m = 9 \<or> m = 11 then 30 else 31)"

definition next_day :: "datetime \<Rightarrow> datetime" where
  "next_day dt =
     (if day dt < days_in_month (year dt) (month dt) then dt\<lparr>day := day dt + 1\<rparr>
      else if month dt < 12 then dt\<lparr>month := month dt + 1, day := 1\<rparr>
      else dt\<lparr>year := year dt + 1, month := 1, day := 1\<rparr>)"

definition prev_day :: "datetime \<Rightarrow> datetime" where
  "prev_day dt =
     (if 1 < day dt then dt\<lparr>day := day dt - 1\<rparr>
      else if 1 < month dt
        then dt\<lparr>month := month dt - 1, day := days_in_month (year dt) (month dt - 1)\<rparr>
      else dt\<lparr>year := year dt - 1, month := 12, day := 31\<rparr>)"

definition shift_days :: "int \<Rightarrow> datetime \<Rightarrow> datetime" where
  "shift_days k dt = (if 0 \<le> k then (next_day ^^ nat k) dt else (prev_day ^^ nat (- k)) dt)"

text \<open>
  The month and day a \<open>datetime\<close> can hold, and the time of day.
\<close>

definition valid_datetime :: "datetime \<Rightarrow> bool" where
  "valid_datetime dt =
     (1 \<le> month dt \<and> month dt \<le> 12 \<and> 1 \<le> day dt
      \<and> day dt \<le> days_in_month (year dt) (month dt) \<and> hour dt < 24 \<and> minute dt < 60
      \<and> second dt < 60)"

text \<open>
  \<open>dt + timedelta(minutes=delta)\<close>: the wall clock moved by \<open>delta\<close> minutes. The result
  is \<open>None\<close> where the library raises \<open>OverflowError\<close>: outside the years 1 to 9999.
\<close>

definition add_minutes :: "int \<Rightarrow> datetime \<Rightarrow> datetime option" where
  "add_minutes delta dt =
     (let total = int (hour dt * 60 + minute dt) + delta;
          r = shift_days (total div 1440) dt
              \<lparr>hour := nat (total mod 1440) div 60, minute := nat (total mod 1440) mod 60\<rparr>
      in if year r < 1 \<or> 9999 < year r then None else Some r)"

text \<open>
  \<open>dt.astimezone(tz)\<close>: the library takes the value to UTC by subtracting its offset and
  then to the wall clock of offset \<open>tz\<close>; either step can overflow. A naive value is read
  as local time of the server, whose UTC offset is \<open>sys\<close> (minutes). A \<open>tzinfo\<close> is
  known by its offset; the rows of the database carry naive values.
\<close>

definition astimezone :: "int \<Rightarrow> int \<Rightarrow> datetime \<Rightarrow> datetime option" where
  "astimezone sys tz dt =
     (let offset = (case tzinfo dt of None \<Rightarrow> sys | Some off \<Rightarrow> off) in
      case add_minutes (- offset) dt of
        None \<Rightarrow> None
      | Some utc \<Rightarrow>
          (case add_minutes tz utc of
             None \<Rightarrow> None
           | Some r \<Rightarrow> Some (r\<lparr>tzinfo := Some tz\<rparr>)))"

text \<open>
  \<open>strftime\<close> with the two formats the ticket code uses, \<open>"%Y%m%d"\<close> and
  \<open>"%d %b %Y, %H:%M WIB"\<close> (month names of the C locale). \<open>%d\<close>, \<open>%m\<close>, \<open>%H\<close> and
  \<open>%M\<close> are zero-padded to two digits; \<open>%Y\<close> is the year as the C library of a Linux
  server prints it, without padding.
\<close>

definition month_abbr :: "nat \<Rightarrow> string" where
  "month_abbr m =
     [''Jan'', ''Feb'', ''Mar'', ''Apr'', ''May'', ''Jun'',
      ''Jul'', ''Aug'', ''Sep'', ''Oct'', ''Nov'', ''Dec''] ! ((m - 1) mod 12)"

definition strftime_Ymd :: "datetime \<Rightarrow> string" where
  "strftime_Ymd dt =
     digits (year dt) @ zfill 2 (digits (month dt)) @ zfill 2 (digits (day dt))"

definition strftime_dbYHM :: "datetime \<Rightarrow> string" where
  "strftime_dbYHM dt =
     zfill 2 (digits (day dt)) @ '' '' @ month_abbr (month dt) @ '' ''
     @ digits (year dt) @ '', '' @ zfill 2 (digits (hour dt)) @ '':''
     @ zfill 2 (digits (minute dt)) @ '' WIB''"

text \<open>
  The clock a request reads: \<open>datetime.now(WIB)\<close> and \<open>datetime.utcnow()\<close>. One request
  is one instant: every reading made while a request is handled returns the same value.
\<close>

record clock =
  now_wib :: datetime
  utcnow :: datetime

section \<open>Database models\<close>

text \<open>
  The columns of \<open>User\<close>, \<open>Ticket\<close>, \<open>TicketMessage\<close> and \<open>ActivityLog\<close>. Field
  names carry the table's initial because the tables share column names (\<open>id\<close>,
  \<open>user_id\<close>, \<open>created_at\<close>). Of \<open>User\<close> only the columns the ticket handlers read are
  kept. A nullable column is an \<open>option\<close>. \<open>status\<close> is a string column, as in the schema;
  the two read flags of a message are set explicitly by the only code that creates one.
\<close>

record user =
  u_id :: int
  u_full_name :: string
  u_role :: string

record ticket =
  t_id :: int
  t_user_id :: int
  t_title :: string
  t_description :: string
  t_category :: "string option"
  t_attachment_path :: "string option"
  t_status :: string
  t_created_at :: "datetime option"
  t_updated_at :: "datetime option"
  t_completed_at :: "datetime option"
  t_admin_note :: "string option"
  t_assigned_admin_id :: "int option"

record ticket_message =
  m_id :: int
  m_ticket_id :: int
  m_sender_id :: int
  m_message :: string
  m_created_at :: "datetime option"
  m_is_read_admin :: bool
  m_is_read_user :: bool

record activity_log =
  l_id :: int
  l_user_id :: "int option"
  l_action :: string
  l_detail :: string
  l_created_at :: "datetime option"

text \<open>The committed database: each table is the list of its rows in insertion order.\<close>

record db =
  users :: "user list"
  tickets :: "ticket list"
  ticket_messages :: "ticket_message list"
  activity_logs :: "activity_log list"

text \<open>
  \<open>Model.query.get(pk)\<close>: the row with that primary key; a missing key (\<open>None\<close>) finds
  nothing. \<open>fresh_id\<close> is the autoincrement primary key of a new row.
\<close>

definition get_user :: "db \<Rightarrow> int \<Rightarrow> user option" where
  "get_user d i = find (\<lambda>u. u_id u = i) (users d)"

definition get_ticket :: "db \<Rightarrow> int option \<Rightarrow> ticket option" where
  "get_ticket d k = (case k of None \<Rightarrow> None | Some i \<Rightarrow> find (\<lambda>t. t_id t = i) (tickets d))"

definition fresh_id :: "int list \<Rightarrow> int" where
  "fresh_id ids = fold max ids 0 + 1"

section \<open>Requests and responses\<close>

text \<open>
  What a handler answers: a redirect to an endpoint or a rendered page, each with the
  messages it flashed (category, text), a JSON body, or an error status (404, 413, 500). The JSON list of
  \<open>chat_messages\<close> is kept as the rows it renders, in the order of the query.
\<close>

datatype response =
    Redirect string "(string \<times> string) list"
  | Page string "(string \<times> string) list"
  | Json_success bool
  | Json_messages "ticket_message list"
  | Not_found
  | Payload_too_large
  | Server_error

text \<open>
  \<open>current_user()\<close>: the session's \<open>user_id\<close> (absent or falsy: no user) looked up in
  \<open>users\<close>. \<open>login_required\<close> runs the view only when the session has a truthy
  \<open>user_id\<close>.
\<close>

definition current_user :: "db \<Rightarrow> int option \<Rightarrow> user option" where
  "current_user d sess = (case sess of None \<Rightarrow> None
     | Some uid \<Rightarrow> if uid = 0 then None else get_user d uid)"

definition login_required :: "int option \<Rightarrow> db \<Rightarrow> (db \<times> response) \<Rightarrow> (db \<times> response)" where
  "login_required sess d view =
     (if sess = None \<or> sess = Some 0 then (d, Redirect ''login'' []) else view)"

section \<open>Ticket chat\<close>

text \<open>
  \<open>chat_messages\<close> (GET \<open>/ticket/<id>/messages\<close>). The two loops set the reader's flag on
  the rows of the ticket that someone else sent; the rows are the session's objects, so the
  loop is a map over the table restricted to the ticket. \<open>changed\<close> is set exactly when
  a flag is assigned, that is when the rows differ from the table, and the commit happens
  only then. A request that ends without a commit leaves the database as it was.
\<close>

definition mark_read_admin :: "int \<Rightarrow> ticket_message \<Rightarrow> ticket_message" where
  "mark_read_admin uid m =
     (if m_sender_id m \<noteq> uid \<and> \<not> m_is_read_admin m then m\<lparr>m_is_read_admin := True\<rparr> else m)"

definition mark_read_user :: "int \<Rightarrow> ticket_message \<Rightarrow> ticket_message" where
  "mark_read_user uid m =
     (if m_sender_id m \<noteq> uid \<and> \<not> m_is_read_user m then m\<lparr>m_is_read_user := True\<rparr> else m)"

definition on_ticket :: "int \<Rightarrow> (ticket_message \<Rightarrow> ticket_message) \<Rightarrow> ticket_message \<Rightarrow> ticket_message" where
  "on_ticket tid f m = (if m_ticket_id m = tid then f m else m)"

text \<open>
  \<open>order_by(TicketMessage.created_at.asc())\<close>: rows sorted on their calendar fields, rows
  without a timestamp last.
\<close>

definition created_key :: "datetime \<Rightarrow> nat" where
  "created_key dt =
     ((((year dt * 13 + month dt) * 32 + day dt) * 24 + hour dt) * 60 + minute dt) * 60 + second dt"

definition order_by_created_at :: "ticket_message list \<Rightarrow> ticket_message list" where
  "order_by_created_at ms =
     sort_key (\<lambda>m. case m_created_at m of Some dt \<Rightarrow> created_key dt | None \<Rightarrow> 0)
       (filter (\<lambda>m. m_created_at m \<noteq> None) ms)
     @ filter (\<lambda>m. m_created_at m = None) ms"

definition chat_messages_view :: "int option \<Rightarrow> int \<Rightarrow> db \<Rightarrow> db \<times> response" where
  "chat_messages_view sess ticket_id d =
     (case get_ticket d (Some ticket_id) of
        None \<Rightarrow> (d, Not_found)
      | Some ticket \<Rightarrow>
          (case current_user d sess of
             None \<Rightarrow> (d, Server_error)
           | Some usr \<Rightarrow>
               if u_role usr \<noteq> ''admin'' \<and> t_user_id ticket \<noteq> u_id usr
               then (d, Json_messages [])
               else
                 let mark = (if u_role usr = ''admin'' then mark_read_admin (u_id usr)
                             else mark_read_user (u_id usr));
                     rows = map (on_ticket ticket_id mark) (ticket_messages d);
                     changed = (rows \<noteq> ticket_messages d);
                     d' = (if changed then d\<lparr>ticket_messages := rows\<rparr> else d)
                 in (d', Json_messages
                      (order_by_created_at (filter (\<lambda>m. m_ticket_id m = ticket_id) rows)))))"

definition chat_messages :: "int option \<Rightarrow> int \<Rightarrow> db \<Rightarrow> db \<times> response" where
  "chat_messages sess ticket_id d = login_required sess d (chat_messages_view sess ticket_id d)"

text \<open>
  \<open>chat_send\<close> (POST \<open>/ticket/<id>/send\<close>): \<open>message\<close> is the form field, absent when
  \<open>None\<close>. The new row gets the next primary key and the column default
  \<open>datetime.now(WIB)\<close> for \<open>created_at\<close>.
\<close>

definition chat_send_view :: "clock \<Rightarrow> int option \<Rightarrow> int \<Rightarrow> string option \<Rightarrow> db \<Rightarrow> db \<times> response" where
  "chat_send_view clk sess ticket_id message d =
     (case get_ticket d (Some ticket_id) of
        None \<Rightarrow> (d, Not_found)
      | Some ticket \<Rightarrow>
          (case current_user d sess of
             None \<Rightarrow> (d, Server_error)
           | Some usr \<Rightarrow>
               if u_role usr \<noteq> ''admin'' \<and> t_user_id ticket \<noteq> u_id usr
               then (d, Json_success False)
               else
                 let msg = strip (or_empty message) in
                 if msg = [] then (d, Json_success False)
                 else
                   let m0 = \<lparr>m_id = fresh_id (map m_id (ticket_messages d)),
                             m_ticket_id = ticket_id, m_sender_id = u_id usr, m_message = msg,
                             m_created_at = Some (now_wib clk),
                             m_is_read_admin = False, m_is_read_user = False\<rparr>;
                       m = (if u_role usr = ''admin''
                            then m0\<lparr>m_is_read_admin := True, m_is_read_user := False\<rparr>
                            else m0\<lparr>m_is_read_admin := False, m_is_read_user := True\<rparr>)
                   in (d\<lparr>ticket_messages := ticket_messages d @ [m]\<rparr>, Json_success True)))"

definition chat_send :: "clock \<Rightarrow> int option \<Rightarrow> int \<Rightarrow> string option \<Rightarrow> db \<Rightarrow> db \<times> response" where
  "chat_send clk sess ticket_id message d =
     login_required sess d (chat_send_view clk sess ticket_id message d)"

section \<open>Ticket numbers\<close>

text \<open>
  \<open>format_ticket_number\<close>: \<open>sys\<close> is the UTC offset of the server's local zone (what
  \<open>astimezone\<close> assumes for a naive \<open>created_at\<close>), and the clock gives
  \<open>datetime.now(WIB)\<close> for a ticket without \<open>created_at\<close>. The nested \<open>try\<close> blocks
  fall back to reading the value as UTC and then to the value as it is.
\<close>

definition format_ticket_number :: "int \<Rightarrow> clock \<Rightarrow> ticket \<Rightarrow> string" where
  "format_ticket_number sys clk t =
     (let dt = (case t_created_at t of
                  None \<Rightarrow> now_wib clk
                | Some created \<Rightarrow>
                    (case astimezone sys WIB created of
                       Some r \<Rightarrow> r
                     | None \<Rightarrow>
                         (case astimezone sys WIB (created\<lparr>tzinfo := Some 0\<rparr>) of
                            Some r \<Rightarrow> r
                          | None \<Rightarrow> created)));
          prefix = strftime_Ymd dt
      in prefix @ format_03d (t_id t))"

section \<open>Creating a ticket\<close>

text \<open>
  \<open>log_action\<close> adds an \<open>ActivityLog\<close> row and commits. \<open>add_log\<close> is the insertion; a
  handler that calls \<open>log_action\<close> with changes pending on a ticket object commits those
  too (\<open>commit_ticket\<close> below).
\<close>

definition add_log :: "clock \<Rightarrow> int option \<Rightarrow> string \<Rightarrow> string \<Rightarrow> db \<Rightarrow> db" where
  "add_log clk uid act detail d =
     d\<lparr>activity_logs := activity_logs d @
        [\<lparr>l_id = fresh_id (map l_id (activity_logs d)), l_user_id = uid, l_action = act,
          l_detail = detail, l_created_at = Some (utcnow clk)\<rparr>]\<rparr>"

text \<open>
  Committing a ticket object: when it differs from its row, the row is updated and
  \<open>updated_at\<close> takes its \<open>onupdate\<close> value. The object is returned as the session holds
  it afterwards.
\<close>

definition commit_ticket :: "clock \<Rightarrow> ticket \<Rightarrow> db \<Rightarrow> ticket \<times> db" where
  "commit_ticket clk t d =
     (if get_ticket d (Some (t_id t)) = Some t then (t, d)
      else
        let t' = t\<lparr>t_updated_at := Some (utcnow clk)\<rparr>
        in (t', d\<lparr>tickets := map (\<lambda>r. if t_id r = t_id t then t' else r) (tickets d)\<rparr>))"

definition log_action :: "clock \<Rightarrow> int option \<Rightarrow> string \<Rightarrow> string \<Rightarrow> ticket \<times> db \<Rightarrow> ticket \<times> db" where
  "log_action clk uid act detail s =
     (let (t, d) = commit_ticket clk (fst s) (snd s) in (t, add_log clk uid act detail d))"

text \<open>
  The uploaded file of \<open>ticket_new\<close>, with what the library calls return for it:
  \<open>attachment.filename\<close>, \<open>secure_filename(attachment.filename)\<close>, the lower-cased
  extension of that name and the number of bytes read. The file written under the static
  folder is outside the database and is not modelled.
\<close>

record upload =
  up_filename :: string
  up_secure_filename :: string
  up_ext :: string
  up_size :: nat

text \<open>
  The form of \<open>ticket_new\<close>, with the length of the request body that carries it.
  \<open>app.config["MAX_CONTENT_LENGTH"]\<close> is 2 MiB: reading \<open>request.form\<close> of a longer
  request raises the 413 error, which is the first thing the POST branch does.
\<close>

record ticket_form =
  f_content_length :: nat
  f_category :: "string option"
  f_description :: "string option"
  f_attachment :: "upload option"

definition MAX_CONTENT_LENGTH :: nat where
  "MAX_CONTENT_LENGTH = 2 * 1024 * 1024"

datatype http_method = GET | POST

definition ticket_new_post :: "clock \<Rightarrow> user \<Rightarrow> ticket_form \<Rightarrow> db \<Rightarrow> db \<times> response" where
  "ticket_new_post clk usr frm d =
     (if MAX_CONTENT_LENGTH < f_content_length frm then (d, Payload_too_large)
      else
        let category = strip (or_empty (f_category frm));
            description = strip (or_empty (f_description frm))
        in
        if description = []
        then (d, Page ''ticket_new'' [(''danger'', ''Deskripsi kendala wajib diisi.'')])
        else
          let line = first_line (strip description);
              short_title = (if 120 < length line then take 120 line @ ''...'' else line);
              ticket = \<lparr>t_id = fresh_id (map t_id (tickets d)), t_user_id = u_id usr,
                        t_title = short_title, t_description = description,
                        t_category = (if category = [] then None else Some category),
                        t_attachment_path = None, t_status = ''open'',
                        t_created_at = Some (utcnow clk), t_updated_at = Some (utcnow clk),
                        t_completed_at = None, t_admin_note = None,
                        t_assigned_admin_id = None\<rparr>;
              d1 = d\<lparr>tickets := tickets d @ [ticket]\<rparr>;
              (flashed, d2) =
                (case f_attachment frm of
                   None \<Rightarrow> ([], d1)
                 | Some a \<Rightarrow>
                     if up_filename a = [] then ([], d1)
                     else if up_ext a \<notin> {''.png'', ''.jpg'', ''.jpeg''}
                     then ([(''danger'', ''File lampiran harus berupa gambar (PNG/JPG).'')], d1)
                     else if 300 * 1024 < up_size a
                     then ([(''danger'', ''Ukuran file lampiran maksimal 300 KB.'')], d1)
                     else
                       let rel_path = ''uploads/tickets/'' @ str_int (t_id ticket) @ ''/''
                                      @ up_secure_filename a
                       in ([], snd (commit_ticket clk
                                      (ticket\<lparr>t_attachment_path := Some rel_path\<rparr>) d1)));
              d3 = add_log clk (Some (u_id usr)) ''ticket_create'' short_title d2
          in (d3, Redirect ''tickets''
                    (flashed @ [(''success'', ''Laporan kendala berhasil dikirim.'')])))"

definition ticket_new :: "clock \<Rightarrow> int option \<Rightarrow> http_method \<Rightarrow> ticket_form \<Rightarrow> db \<Rightarrow> db \<times> response" where
  "ticket_new clk sess meth frm d =
     login_required sess d
       (case current_user d sess of
          None \<Rightarrow> (d, Redirect ''login'' [])
        | Some usr \<Rightarrow>
            if meth = POST then ticket_new_post clk usr frm d
            else (d, Page ''ticket_new'' []))"

section \<open>Admin actions on a ticket\<close>

text \<open>
  The form of \<open>admin_tickets\<close>: \<open>action\<close>, \<open>ticket_id\<close> (the key the submitted value
  denotes; \<open>None\<close> when the field is absent) and \<open>admin_note\<close>.
\<close>

record admin_form =
  f_action :: "string option"
  f_ticket_id :: "int option"
  f_admin_note :: "string option"

text \<open>
  \<open>admin_required\<close>: the view runs for a current user whose role is \<open>admin\<close>; the view
  then reads the same \<open>current_user()\<close> as \<open>admin\<close>.
\<close>

definition admin_required :: "int option \<Rightarrow> db \<Rightarrow> (user \<Rightarrow> db \<times> response) \<Rightarrow> db \<times> response" where
  "admin_required sess d view =
     (case current_user d sess of
        None \<Rightarrow> (d, Redirect ''dashboard'' [(''danger'', ''Anda tidak memiliki akses admin.'')])
      | Some usr \<Rightarrow>
          if u_role usr \<noteq> ''admin''
          then (d, Redirect ''dashboard'' [(''danger'', ''Anda tidak memiliki akses admin.'')])
          else view usr)"

text \<open>
  The \<open>if action == ...\<close> chain of \<open>admin_tickets\<close>, on the ticket object and the
  database: each branch changes the object and calls \<open>log_action\<close>, which commits.
\<close>

definition apply_action :: "clock \<Rightarrow> user \<Rightarrow> string option \<Rightarrow> ticket \<Rightarrow> db \<Rightarrow> ticket \<times> db" where
  "apply_action clk admin act t d =
     (if act = Some ''accept'' then
        let t1 = (if t_status t = ''open'' then t\<lparr>t_status := ''in_progress''\<rparr> else t)
        in log_action clk (Some (u_id admin)) ''ticket_update_status''
             (str_int (t_id t1) @ '':in_progress'') (t1, d)
      else if act = Some ''complete'' then
        let t1 = (if t_status t = ''in_progress'' \<or> t_status t = ''resolved'' then
                    (let t0 = (if t_status t \<noteq> ''resolved'' \<and> t_completed_at t = None
                               then t\<lparr>t_completed_at := Some (now_wib clk)\<rparr> else t)
                     in t0\<lparr>t_status := ''resolved''\<rparr>)
                  else t)
        in log_action clk (Some (u_id admin)) ''ticket_update_status''
             (str_int (t_id t1) @ '':resolved'') (t1, d)
      else if act = Some ''close'' then
        let t1 = (if t_status t \<noteq> ''closed'' then t\<lparr>t_status := ''closed''\<rparr> else t)
        in log_action clk (Some (u_id admin)) ''ticket_update_status''
             (str_int (t_id t1) @ '':closed'') (t1, d)
      else (t, d))"

text \<open>The running log of admin notes: the block under \<open># Append admin note as running log\<close>.\<close>

definition append_note :: "clock \<Rightarrow> string \<Rightarrow> ticket \<Rightarrow> ticket" where
  "append_note clk admin_note t =
     (if admin_note \<noteq> [] then
        let timestamp = strftime_dbYHM (now_wib clk);
            prefix = ''['' @ timestamp @ ''] '';
            existing = strip (or_empty (t_admin_note t))
        in if existing \<noteq> []
           then t\<lparr>t_admin_note := Some (existing @ [CHR 0x0A] @ prefix @ admin_note)\<rparr>
           else t\<lparr>t_admin_note := Some (prefix @ admin_note)\<rparr>
      else t)"

text \<open>
  The POST branch of \<open>admin_tickets\<close>. The two early returns after the ticket is loaded
  make no commit: what was assigned to the ticket object before them is dropped with the
  session when the request ends.
\<close>

definition admin_tickets_post :: "clock \<Rightarrow> user \<Rightarrow> admin_form \<Rightarrow> db \<Rightarrow> db \<times> response" where
  "admin_tickets_post clk admin frm d =
     (let admin_note = strip (or_empty (f_admin_note frm)) in
      if admin_note = []
      then (d, Redirect ''admin_tickets''
                 [(''danger'', ''Catatan admin wajib diisi sebelum melakukan aksi pada tiket.'')])
      else
        (case get_ticket d (f_ticket_id frm) of
           None \<Rightarrow> (d, Redirect ''admin_tickets'' [(''danger'', ''Ticket not found.'')])
         | Some ticket \<Rightarrow>
             let ticket1 = (if t_assigned_admin_id ticket = None
                            then ticket\<lparr>t_assigned_admin_id := Some (u_id admin)\<rparr>
                            else ticket)
             in
               if t_status ticket1 = ''closed''
               then (d, Redirect ''admin_tickets''
                          [(''danger'', ''Ticket is already closed and cannot be modified.'')])
               else
                 let (ticket2, d2) = apply_action clk admin (f_action frm) ticket1 d;
                     ticket3 = append_note clk admin_note ticket2;
                     (ticket4, d4) = commit_ticket clk ticket3 d2
                 in (d4, Redirect ''admin_tickets''
                           [(''success'', ''Ticket updated successfully.'')])))"

definition admin_tickets :: "clock \<Rightarrow> int option \<Rightarrow> http_method \<Rightarrow> admin_form \<Rightarrow> db \<Rightarrow> db \<times> response" where
  "admin_tickets clk sess meth frm d =
     login_required sess d
       (admin_required sess d
          (\<lambda>admin. if meth = POST then admin_tickets_post clk admin frm d
                   else (d, Page ''admin_tickets'' [])))"

text \<open>
  The list view of \<open>admin_tickets\<close> renders one form per ticket and disables the three
  submit buttons by status: \<open>accept_disabled\<close>, \<open>complete_disabled\<close> and
  \<open>close_disabled\<close> are true where the button carries \<open>disabled\<close>.
\<close>

definition accept_disabled :: "ticket \<Rightarrow> bool" where
  "accept_disabled t = (t_status t \<noteq> ''open'')"

definition complete_disabled :: "ticket \<Rightarrow> bool" where
  "complete_disabled t = (t_status t \<noteq> ''in_progress'')"

definition close_disabled :: "ticket \<Rightarrow> bool" where
  "close_disabled t = (t_status t \<noteq> ''resolved'')"

section \<open>Requests over time\<close>

text \<open>
  The four routes that touch tickets and their chat, as requests with the clock reading and
  the session each arrives with; \<open>run\<close> serves a list of requests in order.
\<close>

datatype request =
    Ticket_new clock "int option" http_method ticket_form
  | Admin_tickets clock "int option" http_method admin_form
  | Chat_messages "int option" int
  | Chat_send clock "int option" int "string option"

fun serve :: "request \<Rightarrow> db \<Rightarrow> db \<times> response" where
  "serve (Ticket_new clk sess meth frm) d = ticket_new clk sess meth frm d"
| "serve (Admin_tickets clk sess meth frm) d = admin_tickets clk sess meth frm d"
| "serve (Chat_messages sess ticket_id) d = chat_messages sess ticket_id d"
| "serve (Chat_send clk sess ticket_id message) d = chat_send clk sess ticket_id message d"

fun run :: "request list \<Rightarrow> db \<Rightarrow> db" where
  "run [] d = d"
| "run (r # rs) d = run rs (fst (serve r d))"

text \<open>
  The order of the four status values, as the schema's comment lists them:
  \<open>open, in_progress, resolved, closed\<close>. \<open>status_rank\<close> is the position of a status in
  it (4 for any other string).
\<close>

definition status_order :: "string list" where
  "status_order = [''open'', ''in_progress'', ''resolved'', ''closed'']"

definition valid_status :: "string \<Rightarrow> bool" where
  "valid_status s = (s \<in> set status_order)"

definition status_rank :: "string \<Rightarrow> nat" where
  "status_rank s = length (takeWhile (\<lambda>x. x \<noteq> s) status_order)"

section \<open>What the statements are measured against\<close>

text \<open>
  Decimal digits written out, independent of the rendering functions above: a number in
  two, three and four digits, a date as \<open>YYYYMMDD\<close>, and a time as
  \<open>dd Mon YYYY, HH:MM WIB\<close>.
\<close>

definition decimal_digit :: "nat \<Rightarrow> char" where
  "decimal_digit k =
     (if k = 0 then CHR ''0'' else if k = 1 then CHR ''1'' else if k = 2 then CHR ''2''
      else if k = 3 then CHR ''3'' else if k = 4 then CHR ''4'' else if k = 5 then CHR ''5''
      else if k = 6 then CHR ''6'' else if k = 7 then CHR ''7'' else if k = 8 then CHR ''8''
      else CHR ''9'')"

definition two_digits :: "nat \<Rightarrow> string" where
  "two_digits n = [decimal_digit (n div 10 mod 10), decimal_digit (n mod 10)]"

definition three_digits :: "nat \<Rightarrow> string" where
  "three_digits n = decimal_digit (n div 100 mod 10) # two_digits n"

definition four_digits :: "nat \<Rightarrow> string" where
  "four_digits n = decimal_digit (n div 1000 mod 10) # three_digits n"

definition yyyymmdd :: "datetime \<Rightarrow> string" where
  "yyyymmdd dt = four_digits (year dt) @ two_digits (month dt) @ two_digits (day dt)"

definition month_name :: "nat \<Rightarrow> string" where
  "month_name m =
     (if m = 1 then ''Jan'' else if m = 2 then ''Feb'' else if m = 3 then ''Mar''
      else if m = 4 then ''Apr'' else if m = 5 then ''May'' else if m = 6 then ''Jun''
      else if m = 7 then ''Jul'' else if m = 8 then ''Aug'' else if m = 9 then ''Sep''
      else if m = 10 then ''Oct'' else if m = 11 then ''Nov'' else ''Dec'')"

definition wib_stamp :: "datetime \<Rightarrow> string" where
  "wib_stamp dt =
     two_digits (day dt) @ '' '' @ month_name (month dt) @ '' '' @ four_digits (year dt)
     @ '', '' @ two_digits (hour dt) @ '':'' @ two_digits (minute dt) @ '' WIB''"

text \<open>
  The place of a wall-clock reading on the proleptic Gregorian calendar, in minutes: the
  day number (1 for 1 January of year 1) times 1440, plus the minutes of the day. Two
  readings of one instant in zones whose offsets differ by \<open>k\<close> minutes are \<open>k\<close> apart.
\<close>

definition days_before_year :: "nat \<Rightarrow> nat" where
  "days_before_year y = 365 * (y - 1) + (y - 1) div 4 + (y - 1) div 400 - (y - 1) div 100"

definition days_before_month :: "nat \<Rightarrow> nat \<Rightarrow> nat" where
  "days_before_month y m =
     [0, 31, 59, 90, 120, 151, 181, 212, 243, 273, 304, 334] ! (m - 1)
     + (if 2 < m \<and> y mod 4 = 0 \<and> (y mod 100 \<noteq> 0 \<or> y mod 400 = 0) then 1 else 0)"

definition day_number :: "datetime \<Rightarrow> nat" where
  "day_number dt = days_before_year (year dt) + days_before_month (year dt) (month dt) + day dt"

definition wall_minutes :: "datetime \<Rightarrow> int" where
  "wall_minutes dt = int (day_number dt) * 1440 + int (hour dt) * 60 + int (minute dt)"

section \<open>A small database for concrete runs\<close>

text \<open>
  Two admins, two students, one open ticket of the first student with one chat message of
  hers; a request served at 10:30 WIB on 5 March 2024.
\<close>

definition dt0 :: datetime where
  "dt0 = \<lparr>year = 2024, month = 3, day = 5, hour = 3, minute = 30, second = 0, tzinfo = None\<rparr>"

definition clk0 :: clock where
  "clk0 = \<lparr>now_wib = dt0\<lparr>hour := 10, tzinfo := Some 420\<rparr>, utcnow = dt0\<rparr>"

definition ticket0 :: ticket where
  "ticket0 = \<lparr>t_id = 1, t_user_id = 2, t_title = ''Tidak bisa login'',
               t_description = ''Tidak bisa login'', t_category = None,
               t_attachment_path = None, t_status = ''open'', t_created_at = Some dt0,
               t_updated_at = Some dt0, t_completed_at = None, t_admin_note = None,
               t_assigned_admin_id = None\<rparr>"

definition message0 :: ticket_message where
  "message0 = \<lparr>m_id = 1, m_ticket_id = 1, m_sender_id = 2, m_message = ''Halo'',
                m_created_at = Some dt0, m_is_read_admin = False, m_is_read_user = True\<rparr>"

definition db0 :: db where
  "db0 = \<lparr>users = [\<lparr>u_id = 1, u_full_name = ''Admin'', u_role = ''admin''\<rparr>,
                    \<lparr>u_id = 2, u_full_name = ''Siti'', u_role = ''user''\<rparr>,
                    \<lparr>u_id = 3, u_full_name = ''Budi'', u_role = ''user''\<rparr>,
                    \<lparr>u_id = 4, u_full_name = ''Admin Dua'', u_role = ''admin''\<rparr>],
          tickets = [ticket0], ticket_messages = [message0], activity_logs = []\<rparr>"

text \<open>
  The same database with the ticket closed, with the ticket assigned to the first admin and
  in progress, and an admin form for the ticket.
\<close>

definition db_assigned :: db where
  "db_assigned = db0\<lparr>tickets := [ticket0\<lparr>t_status := ''in_progress'',
                                          t_assigned_admin_id := Some 1\<rparr>]\<rparr>"

definition db_closed :: db where
  "db_closed = db0\<lparr>tickets := [ticket0\<lparr>t_status := ''closed''\<rparr>]\<rparr>"

text \<open>A later reading of the clock, and the ticket resolved at the earlier one.\<close>

definition clk1 :: clock where
  "clk1 = \<lparr>now_wib = dt0\<lparr>day := 6, hour := 9, tzinfo := Some 420\<rparr>, utcnow = dt0\<lparr>day := 6, hour := 2\<rparr>\<rparr>"

definition db_resolved :: db where
  "db_resolved = db0\<lparr>tickets := [ticket0\<lparr>t_status := ''resolved'',
                                          t_completed_at := Some (now_wib clk0),
                                          t_assigned_admin_id := Some 1\<rparr>]\<rparr>"

text \<open>The ticket with an earlier note that has blanks around it.\<close>

definition db_noted :: db where
  "db_noted = db0\<lparr>tickets := [ticket0\<lparr>t_admin_note := Some ''  catatan lama ''\<rparr>]\<rparr>"

definition form0 :: "string \<Rightarrow> admin_form" where
  "form0 act = \<lparr>f_action = Some act, f_ticket_id = Some 1, f_admin_note = Some ''Sedang dicek''\<rparr>"

section \<open>Facts about the helpers\<close>

lemmas lookup_defs = login_required_def current_user_def get_user_def get_ticket_def

lemmas str_defs = strip_def isspace_def or_empty_def

lemmas sample_defs = db0_def ticket0_def message0_def clk0_def dt0_def db_closed_def db_assigned_def db_resolved_def db_noted_def
  clk1_def form0_def

lemma current_user_logged_in:
  "current_user d sess = Some usr \<Longrightarrow> login_required sess d view = view"
  by (auto simp: current_user_def login_required_def split: option.splits if_splits)

subsection \<open>Trimmed strings\<close>

lemma last_dropWhile: "dropWhile P xs \<noteq> [] \<Longrightarrow> last (dropWhile P xs) = last xs"
proof -
  assume a: "dropWhile P xs \<noteq> []"
  have "last xs = last (takeWhile P xs @ dropWhile P xs)" by simp
  also have "\<dots> = last (dropWhile P xs)" using a by (rule last_appendR)
  finally show ?thesis by simp
qed

lemma strip_fixed:
  assumes "s \<noteq> []" and "\<not> isspace (hd s)" and "\<not> isspace (last s)"
  shows "strip s = s"
proof -
  have 1: "dropWhile isspace s = s" using assms(2) by (simp add: dropWhile_eq_self_iff)
  have 2: "dropWhile isspace (rev s) = rev s"
    using assms(1,3) by (simp add: dropWhile_eq_self_iff hd_rev)
  show ?thesis by (simp add: strip_def 1 2)
qed

lemma strip_ends:
  assumes "strip s \<noteq> []"
  shows "\<not> isspace (hd (strip s))" and "\<not> isspace (last (strip s))"
proof -
  let ?a = "dropWhile isspace s"
  let ?b = "dropWhile isspace (rev ?a)"
  from assms have b: "?b \<noteq> []" by (simp add: strip_def)
  then have a: "?a \<noteq> []" by (metis dropWhile.simps(1) rev.simps(1))
  from b have "\<not> isspace (hd ?b)" by (rule hd_dropWhile)
  then show "\<not> isspace (last (strip s))" using b by (simp add: strip_def last_rev)
  from b have "last ?b = last (rev ?a)" by (rule last_dropWhile)
  then have "last ?b = hd ?a" using a by (simp add: last_rev)
  moreover from a have "\<not> isspace (hd ?a)" by (rule hd_dropWhile)
  ultimately show "\<not> isspace (hd (strip s))" using b by (simp add: strip_def hd_rev)
qed

lemma strip_idem: "strip (strip s) = strip s"
proof (cases "strip s = []")
  case True
  have "strip [] = []" by (simp add: strip_def)
  with True show ?thesis by simp
next
  case False
  then show ?thesis by (intro strip_fixed strip_ends)
qed

subsection \<open>Rows, commits and the admin handler\<close>

lemma get_ticket_id: "get_ticket d k = Some t \<Longrightarrow> k = Some (t_id t)"
  by (auto simp: get_ticket_def find_Some_iff split: option.splits)

lemma find_replace:
  "t_id t' = i \<Longrightarrow>
   find (\<lambda>t. t_id t = k) (map (\<lambda>r. if t_id r = i then t' else r) ts)
     = (if k = i then (if find (\<lambda>t. t_id t = i) ts = None then None else Some t')
        else find (\<lambda>t. t_id t = k) ts)"
  by (induction ts) auto

lemma commit_ticket_fields [simp]:
  "t_id (fst (commit_ticket clk t d)) = t_id t"
  "t_user_id (fst (commit_ticket clk t d)) = t_user_id t"
  "t_title (fst (commit_ticket clk t d)) = t_title t"
  "t_description (fst (commit_ticket clk t d)) = t_description t"
  "t_category (fst (commit_ticket clk t d)) = t_category t"
  "t_attachment_path (fst (commit_ticket clk t d)) = t_attachment_path t"
  "t_status (fst (commit_ticket clk t d)) = t_status t"
  "t_created_at (fst (commit_ticket clk t d)) = t_created_at t"
  "t_completed_at (fst (commit_ticket clk t d)) = t_completed_at t"
  "t_admin_note (fst (commit_ticket clk t d)) = t_admin_note t"
  "t_assigned_admin_id (fst (commit_ticket clk t d)) = t_assigned_admin_id t"
  by (simp_all add: commit_ticket_def Let_def)

lemma commit_ticket_frame [simp]:
  "users (snd (commit_ticket clk t d)) = users d"
  "ticket_messages (snd (commit_ticket clk t d)) = ticket_messages d"
  "activity_logs (snd (commit_ticket clk t d)) = activity_logs d"
  "map t_id (tickets (snd (commit_ticket clk t d))) = map t_id (tickets d)"
  by (simp_all add: commit_ticket_def Let_def comp_def)

lemma get_ticket_None [simp]: "get_ticket d None = None"
  by (simp add: get_ticket_def)

lemma commit_ticket_row:
  "get_ticket (snd (commit_ticket clk t d)) (Some i)
     = (if t_id t = i \<and> get_ticket d (Some i) \<noteq> None then Some (fst (commit_ticket clk t d))
        else get_ticket d (Some i))"
  by (auto simp: commit_ticket_def Let_def get_ticket_def find_replace)

lemma add_log_frame [simp]:
  "users (add_log clk uid act detail d) = users d"
  "tickets (add_log clk uid act detail d) = tickets d"
  "ticket_messages (add_log clk uid act detail d) = ticket_messages d"
  "get_ticket (add_log clk uid act detail d) k = get_ticket d k"
  by (simp_all add: add_log_def get_ticket_def split: option.splits)

lemma log_action_fst [simp]:
  "fst (log_action clk uid act detail (t, d)) = fst (commit_ticket clk t d)"
  by (simp add: log_action_def split_def Let_def)

lemma log_action_snd [simp]:
  "snd (log_action clk uid act detail (t, d)) = add_log clk uid act detail (snd (commit_ticket clk t d))"
  by (simp add: log_action_def split_def Let_def)

lemma apply_action_status:
  "t_status (fst (apply_action clk admin act t d))
     = (if act = Some ''accept'' \<and> t_status t = ''open'' then ''in_progress''
        else if act = Some ''complete'' \<and> (t_status t = ''in_progress'' \<or> t_status t = ''resolved'')
          then ''resolved''
        else if act = Some ''close'' then ''closed''
        else t_status t)"
  by (simp add: apply_action_def Let_def)

lemma apply_action_completed_at:
  "t_completed_at (fst (apply_action clk admin act t d))
     = (if act = Some ''complete'' \<and> t_status t = ''in_progress'' \<and> t_completed_at t = None
        then Some (now_wib clk) else t_completed_at t)"
  by (simp add: apply_action_def Let_def)

lemma apply_action_fields [simp]:
  "t_id (fst (apply_action clk admin act t d)) = t_id t"
  "t_user_id (fst (apply_action clk admin act t d)) = t_user_id t"
  "t_title (fst (apply_action clk admin act t d)) = t_title t"
  "t_description (fst (apply_action clk admin act t d)) = t_description t"
  "t_category (fst (apply_action clk admin act t d)) = t_category t"
  "t_attachment_path (fst (apply_action clk admin act t d)) = t_attachment_path t"
  "t_created_at (fst (apply_action clk admin act t d)) = t_created_at t"
  "t_admin_note (fst (apply_action clk admin act t d)) = t_admin_note t"
  "t_assigned_admin_id (fst (apply_action clk admin act t d)) = t_assigned_admin_id t"
  by (simp_all add: apply_action_def Let_def)

lemma apply_action_frame [simp]:
  "users (snd (apply_action clk admin act t d)) = users d"
  "ticket_messages (snd (apply_action clk admin act t d)) = ticket_messages d"
  "map t_id (tickets (snd (apply_action clk admin act t d))) = map t_id (tickets d)"
  by (simp_all add: apply_action_def Let_def)



lemma apply_action_row:
  "get_ticket (snd (apply_action clk admin act t d)) (Some i)
     = (if t_id t = i \<and> get_ticket d (Some i) \<noteq> None
           \<and> (act = Some ''accept'' \<or> act = Some ''complete'' \<or> act = Some ''close'')
        then Some (fst (apply_action clk admin act t d))
        else get_ticket d (Some i))"
  by (simp add: apply_action_def Let_def commit_ticket_row)

lemma append_note_fields [simp]:
  "t_id (append_note clk n t) = t_id t"
  "t_user_id (append_note clk n t) = t_user_id t"
  "t_title (append_note clk n t) = t_title t"
  "t_description (append_note clk n t) = t_description t"
  "t_category (append_note clk n t) = t_category t"
  "t_attachment_path (append_note clk n t) = t_attachment_path t"
  "t_status (append_note clk n t) = t_status t"
  "t_created_at (append_note clk n t) = t_created_at t"
  "t_completed_at (append_note clk n t) = t_completed_at t"
  "t_assigned_admin_id (append_note clk n t) = t_assigned_admin_id t"
  by (simp_all add: append_note_def Let_def)

lemma append_note_note:
  "n \<noteq> [] \<Longrightarrow>
   t_admin_note (append_note clk n t)
     = Some (if strip (or_empty (t_admin_note t)) = []
             then ''['' @ strftime_dbYHM (now_wib clk) @ ''] '' @ n
             else strip (or_empty (t_admin_note t)) @ [CHR 0x0A]
                  @ ''['' @ strftime_dbYHM (now_wib clk) @ ''] '' @ n)"
  by (simp add: append_note_def Let_def)

lemma admin_post_rejected:
  "strip (or_empty (f_admin_note frm)) = [] \<or> get_ticket d (f_ticket_id frm) = None
     \<or> (\<exists>t. get_ticket d (f_ticket_id frm) = Some t \<and> t_status t = ''closed'')
   \<Longrightarrow> admin_tickets_post clk admin frm d
       = (d, Redirect ''admin_tickets''
               [(''danger'',
                 if strip (or_empty (f_admin_note frm)) = []
                 then ''Catatan admin wajib diisi sebelum melakukan aksi pada tiket.''
                 else if get_ticket d (f_ticket_id frm) = None then ''Ticket not found.''
                 else ''Ticket is already closed and cannot be modified.'')])"
  by (auto simp: admin_tickets_post_def Let_def split: option.splits)

lemma admin_post_accepted:
  assumes "get_ticket d (f_ticket_id frm) = Some tk"
    and "strip (or_empty (f_admin_note frm)) \<noteq> []"
    and "t_status tk \<noteq> ''closed''"
  shows "admin_tickets_post clk admin frm d
       = (snd (commit_ticket clk
                (append_note clk (strip (or_empty (f_admin_note frm)))
                   (fst (apply_action clk admin (f_action frm)
                      (if t_assigned_admin_id tk = None
                       then tk\<lparr>t_assigned_admin_id := Some (u_id admin)\<rparr> else tk) d)))
                (snd (apply_action clk admin (f_action frm)
                      (if t_assigned_admin_id tk = None
                       then tk\<lparr>t_assigned_admin_id := Some (u_id admin)\<rparr> else tk) d))),
          Redirect ''admin_tickets'' [(''success'', ''Ticket updated successfully.'')])"
  using assms
  by (simp add: admin_tickets_post_def Let_def split_def)

lemma admin_post_row:
  assumes "get_ticket d (f_ticket_id frm) = Some tk"
    and "strip (or_empty (f_admin_note frm)) \<noteq> []"
    and "t_status tk \<noteq> ''closed''"
  shows "\<exists>t'. get_ticket (fst (admin_tickets_post clk admin frm d)) (f_ticket_id frm) = Some t'
     \<and> t_id t' = t_id tk \<and> t_user_id t' = t_user_id tk \<and> t_title t' = t_title tk
     \<and> t_description t' = t_description tk \<and> t_category t' = t_category tk
     \<and> t_attachment_path t' = t_attachment_path tk \<and> t_created_at t' = t_created_at tk
     \<and> t_status t'
         = (if f_action frm = Some ''accept'' \<and> t_status tk = ''open'' then ''in_progress''
            else if f_action frm = Some ''complete''
                    \<and> (t_status tk = ''in_progress'' \<or> t_status tk = ''resolved'')
              then ''resolved''
            else if f_action frm = Some ''close'' then ''closed''
            else t_status tk)
     \<and> t_completed_at t'
         = (if f_action frm = Some ''complete'' \<and> t_status tk = ''in_progress''
               \<and> t_completed_at tk = None
            then Some (now_wib clk) else t_completed_at tk)
     \<and> t_assigned_admin_id t'
         = (if t_assigned_admin_id tk = None then Some (u_id admin) else t_assigned_admin_id tk)
     \<and> t_admin_note t'
         = Some (if strip (or_empty (t_admin_note tk)) = []
                 then ''['' @ strftime_dbYHM (now_wib clk) @ ''] ''
                      @ strip (or_empty (f_admin_note frm))
                 else strip (or_empty (t_admin_note tk)) @ [CHR 0x0A]
                      @ ''['' @ strftime_dbYHM (now_wib clk) @ ''] ''
                      @ strip (or_empty (f_admin_note frm)))"
proof -
  from assms(1) have k: "f_ticket_id frm = Some (t_id tk)" by (rule get_ticket_id)
  show ?thesis
    unfolding admin_post_accepted [OF assms] k
    using assms(1) assms(2) unfolding k
    by (simp add: commit_ticket_row apply_action_row apply_action_status
          apply_action_completed_at append_note_note)
qed

lemma admin_post_other_rows:
  assumes "k \<noteq> f_ticket_id frm"
  shows "get_ticket (fst (admin_tickets_post clk admin frm d)) k = get_ticket d k"
proof (cases "strip (or_empty (f_admin_note frm)) = [] \<or> get_ticket d (f_ticket_id frm) = None
     \<or> (\<exists>t. get_ticket d (f_ticket_id frm) = Some t \<and> t_status t = ''closed'')")
  case True
  then show ?thesis by (simp add: admin_post_rejected)
next
  case False
  then obtain tk where tk: "get_ticket d (f_ticket_id frm) = Some tk"
    and n: "strip (or_empty (f_admin_note frm)) \<noteq> []" and s: "t_status tk \<noteq> ''closed''"
    by auto
  from tk have "f_ticket_id frm = Some (t_id tk)" by (rule get_ticket_id)
  with assms show ?thesis
    unfolding admin_post_accepted [OF tk n s]
    by (cases k) (auto simp: commit_ticket_row apply_action_row)
qed

lemma admin_post_frame:
  "users (fst (admin_tickets_post clk admin frm d)) = users d"
  "ticket_messages (fst (admin_tickets_post clk admin frm d)) = ticket_messages d"
  "map t_id (tickets (fst (admin_tickets_post clk admin frm d))) = map t_id (tickets d)"
  by (cases "strip (or_empty (f_admin_note frm)) = [] \<or> get_ticket d (f_ticket_id frm) = None
     \<or> (\<exists>t. get_ticket d (f_ticket_id frm) = Some t \<and> t_status t = ''closed'')";
      auto simp: admin_post_rejected admin_post_accepted)+

subsection \<open>New tickets\<close>

lemma fold_max_ge: "(a::int) \<le> fold max ids a \<and> (\<forall>x \<in> set ids. x \<le> fold max ids a)"
proof (induction ids arbitrary: a)
  case Nil
  then show ?case by simp
next
  case (Cons y ys)
  from Cons.IH [of "max y a"] show ?case by auto
qed

lemma fresh_id_fresh: "fresh_id ids \<notin> set ids"
proof
  assume "fresh_id ids \<in> set ids"
  with fold_max_ge [of 0 ids] have "fresh_id ids \<le> fold max ids 0" by blast
  then show False by (simp add: fresh_id_def)
qed

lemma replace_fresh:
  "i \<notin> set (map t_id ts) \<Longrightarrow> map (\<lambda>r. if t_id r = i then t' else r) ts = ts"
  by (induction ts) auto

lemma find_append_last:
  "find P (xs @ [y]) = (case find P xs of Some x \<Rightarrow> Some x | None \<Rightarrow> if P y then Some y else None)"
  by (induction xs) auto

lemma ticket_new_post_too_large:
  "MAX_CONTENT_LENGTH < f_content_length frm \<Longrightarrow>
   ticket_new_post clk usr frm d = (d, Payload_too_large)"
  by (simp add: ticket_new_post_def)

lemma ticket_new_post_rejected:
  "f_content_length frm \<le> MAX_CONTENT_LENGTH \<Longrightarrow>
   strip (or_empty (f_description frm)) = [] \<Longrightarrow>
   ticket_new_post clk usr frm d
     = (d, Page ''ticket_new'' [(''danger'', ''Deskripsi kendala wajib diisi.'')])"
  by (simp add: ticket_new_post_def)

lemma ticket_new_post_created:
  assumes "f_content_length frm \<le> MAX_CONTENT_LENGTH"
    and "strip (or_empty (f_description frm)) \<noteq> []"
  shows "\<exists>t. tickets (fst (ticket_new_post clk usr frm d)) = tickets d @ [t]
     \<and> t_id t = fresh_id (map t_id (tickets d))
     \<and> t_user_id t = u_id usr \<and> t_status t = ''open''
     \<and> t_description t = strip (or_empty (f_description frm))
     \<and> t_title t = (if 120 < length (first_line (strip (or_empty (f_description frm))))
                    then take 120 (first_line (strip (or_empty (f_description frm)))) @ ''...''
                    else first_line (strip (or_empty (f_description frm))))
     \<and> t_completed_at t = None \<and> t_admin_note t = None \<and> t_assigned_admin_id t = None"
proof -
  from assms(1) have s: "\<not> MAX_CONTENT_LENGTH < f_content_length frm" by simp
  show ?thesis
    using assms(2) fresh_id_fresh [of "map t_id (tickets d)"]
    by (auto simp: ticket_new_post_def s Let_def strip_idem add_log_def commit_ticket_def
          replace_fresh split: option.splits)
qed

lemma ticket_new_post_frame:
  "users (fst (ticket_new_post clk usr frm d)) = users d"
  "ticket_messages (fst (ticket_new_post clk usr frm d)) = ticket_messages d"
  by (auto simp: ticket_new_post_def Let_def add_log_def commit_ticket_def split: option.splits)

lemma ticket_new_post_row:
  assumes "get_ticket d k = Some tk"
  shows "get_ticket (fst (ticket_new_post clk usr frm d)) k = Some tk"
proof (cases "MAX_CONTENT_LENGTH < f_content_length frm")
  case True
  then show ?thesis using assms by (simp add: ticket_new_post_too_large)
next
  case False
  then have s: "f_content_length frm \<le> MAX_CONTENT_LENGTH" by simp
  show ?thesis
  proof (cases "strip (or_empty (f_description frm)) = []")
    case True
    then show ?thesis using assms by (simp add: ticket_new_post_rejected [OF s])
  next
    case False
    from ticket_new_post_created [OF s False, of clk usr d]
    obtain t where "tickets (fst (ticket_new_post clk usr frm d)) = tickets d @ [t]" by blast
    with assms show ?thesis
      by (cases k) (simp_all add: get_ticket_def find_append_last)
  qed
qed

subsection \<open>One request, and runs of requests\<close>

lemma get_ticket_tickets: "tickets d' = tickets d \<Longrightarrow> get_ticket d' k = get_ticket d k"
  by (simp add: get_ticket_def split: option.splits)

lemma chat_messages_tickets: "tickets (fst (chat_messages sess tid d)) = tickets d"
  by (auto simp: chat_messages_def chat_messages_view_def login_required_def Let_def
        split: option.splits)

lemma chat_send_tickets: "tickets (fst (chat_send clk sess tid message d)) = tickets d"
  by (auto simp: chat_send_def chat_send_view_def login_required_def Let_def
        split: option.splits)

lemma ticket_new_row:
  "get_ticket d k = Some tk \<Longrightarrow> get_ticket (fst (ticket_new clk sess meth frm d)) k = Some tk"
  by (auto simp: ticket_new_def login_required_def ticket_new_post_row split: option.splits)

lemma admin_tickets_cases:
  "admin_tickets clk sess meth frm d = (d, Redirect ''login'' [])
   \<or> admin_tickets clk sess meth frm d
        = (d, Redirect ''dashboard'' [(''danger'', ''Anda tidak memiliki akses admin.'')])
   \<or> admin_tickets clk sess meth frm d = (d, Page ''admin_tickets'' [])
   \<or> (\<exists>admin. current_user d sess = Some admin \<and> u_role admin = ''admin'' \<and> meth = POST
         \<and> admin_tickets clk sess meth frm d = admin_tickets_post clk admin frm d)"
  by (auto simp: admin_tickets_def login_required_def admin_required_def split: option.splits)

lemma admin_tickets_as_admin:
  "current_user d sess = Some admin \<Longrightarrow> u_role admin = ''admin'' \<Longrightarrow>
   admin_tickets clk sess POST frm d = admin_tickets_post clk admin frm d"
  by (simp add: admin_tickets_def admin_required_def current_user_logged_in)

lemma serve_row:
  assumes "get_ticket d k = Some tk"
  shows "get_ticket (fst (serve r d)) k = Some tk
     \<or> (\<exists>clk sess frm admin.
           r = Admin_tickets clk sess POST frm \<and> current_user d sess = Some admin
         \<and> u_role admin = ''admin'' \<and> f_ticket_id frm = k
         \<and> strip (or_empty (f_admin_note frm)) \<noteq> [] \<and> t_status tk \<noteq> ''closed''
         \<and> serve r d = admin_tickets_post clk admin frm d)"
proof (cases r)
  case (Ticket_new clk sess meth frm)
  with assms show ?thesis by (simp add: ticket_new_row)
next
  case (Admin_tickets clk sess meth frm)
  from admin_tickets_cases [of clk sess meth frm d]
  consider (same) "fst (admin_tickets clk sess meth frm d) = d"
    | (post) admin where "current_user d sess = Some admin" "u_role admin = ''admin''"
        "meth = POST" "admin_tickets clk sess meth frm d = admin_tickets_post clk admin frm d"
    by auto
  then show ?thesis
  proof cases
    case same
    with assms Admin_tickets show ?thesis by simp
  next
    case post
    show ?thesis
    proof (cases "f_ticket_id frm = k")
      case False
      then have "get_ticket (fst (admin_tickets_post clk admin frm d)) k = get_ticket d k"
        by (intro admin_post_other_rows) simp
      with assms Admin_tickets post show ?thesis by simp
    next
      case True
      show ?thesis
      proof (cases "strip (or_empty (f_admin_note frm)) = [] \<or> t_status tk = ''closed''")
        case True
        with assms \<open>f_ticket_id frm = k\<close>
        have "fst (admin_tickets_post clk admin frm d) = d"
          by (subst admin_post_rejected) auto
        with assms Admin_tickets post show ?thesis by simp
      next
        case False
        with Admin_tickets post \<open>f_ticket_id frm = k\<close> show ?thesis by auto
      qed
    qed
  qed
next
  case (Chat_messages sess tid)
  with assms show ?thesis by (simp add: get_ticket_tickets [OF chat_messages_tickets])
next
  case (Chat_send clk sess tid message)
  with assms show ?thesis by (simp add: get_ticket_tickets [OF chat_send_tickets])
qed

lemma run_rows:
  assumes step: "\<And>d a r. get_ticket d k = Some a \<Longrightarrow> I a \<Longrightarrow>
                   \<exists>b. get_ticket (fst (serve r d)) k = Some b \<and> I b"
    and "get_ticket d k = Some a" and "I a"
  shows "\<exists>b. get_ticket (run rs d) k = Some b \<and> I b"
  using assms(2,3)
proof (induction rs arbitrary: d a)
  case Nil
  then show ?case by simp
next
  case (Cons r rs)
  from step [OF Cons.prems, of r] obtain b
    where "get_ticket (fst (serve r d)) k = Some b" and "I b" by blast
  from Cons.IH [OF this] show ?case by simp
qed

lemma admin_tickets_success:
  assumes "snd (admin_tickets clk sess meth frm d)
             = Redirect ''admin_tickets'' [(''success'', ''Ticket updated successfully.'')]"
  shows "\<exists>admin tk. current_user d sess = Some admin \<and> u_role admin = ''admin''
           \<and> meth = POST \<and> get_ticket d (f_ticket_id frm) = Some tk
           \<and> strip (or_empty (f_admin_note frm)) \<noteq> [] \<and> t_status tk \<noteq> ''closed''
           \<and> admin_tickets clk sess meth frm d = admin_tickets_post clk admin frm d"
proof -
  from assms admin_tickets_cases [of clk sess meth frm d]
  obtain admin where adm: "current_user d sess = Some admin" "u_role admin = ''admin''"
      "meth = POST"
    and post: "admin_tickets clk sess meth frm d = admin_tickets_post clk admin frm d"
    by auto
  have "\<not> (strip (or_empty (f_admin_note frm)) = [] \<or> get_ticket d (f_ticket_id frm) = None
     \<or> (\<exists>t. get_ticket d (f_ticket_id frm) = Some t \<and> t_status t = ''closed''))"
  proof
    assume "strip (or_empty (f_admin_note frm)) = [] \<or> get_ticket d (f_ticket_id frm) = None
     \<or> (\<exists>t. get_ticket d (f_ticket_id frm) = Some t \<and> t_status t = ''closed'')"
    from admin_post_rejected [OF this, of clk admin] assms post show False by simp
  qed
  with adm post show ?thesis by auto
qed

lemma admin_tickets_no_success:
  assumes "snd (admin_tickets clk sess meth frm d)
             \<noteq> Redirect ''admin_tickets'' [(''success'', ''Ticket updated successfully.'')]"
  shows "fst (admin_tickets clk sess meth frm d) = d"
proof -
  from admin_tickets_cases [of clk sess meth frm d]
  consider "fst (admin_tickets clk sess meth frm d) = d"
    | admin where "admin_tickets clk sess meth frm d = admin_tickets_post clk admin frm d"
    by auto
  then show ?thesis
  proof cases
    case 1
    then show ?thesis .
  next
    case 2
    show ?thesis
    proof (cases "strip (or_empty (f_admin_note frm)) = []
        \<or> get_ticket d (f_ticket_id frm) = None
        \<or> (\<exists>t. get_ticket d (f_ticket_id frm) = Some t \<and> t_status t = ''closed'')")
      case True
      from admin_post_rejected [OF True, of clk admin] 2 show ?thesis by simp
    next
      case False
      then obtain tk where "get_ticket d (f_ticket_id frm) = Some tk"
        "strip (or_empty (f_admin_note frm)) \<noteq> []" "t_status tk \<noteq> ''closed''"
        by auto
      from admin_post_accepted [OF this, of clk admin] 2 assms show ?thesis by simp
    qed
  qed
qed

lemma serve_admin_step:
  assumes "get_ticket d k = Some tk"
  shows "get_ticket (fst (serve r d)) k = Some tk
     \<or> (\<exists>clk admin frm. f_ticket_id frm = k \<and> get_ticket d (f_ticket_id frm) = Some tk
           \<and> strip (or_empty (f_admin_note frm)) \<noteq> [] \<and> t_status tk \<noteq> ''closed''
           \<and> fst (serve r d) = fst (admin_tickets_post clk admin frm d))"
  using serve_row [OF assms, of r]
proof
  assume "get_ticket (fst (serve r d)) k = Some tk"
  then show ?thesis by simp
next
  assume "\<exists>clk sess frm admin.
           r = Admin_tickets clk sess POST frm \<and> current_user d sess = Some admin
         \<and> u_role admin = ''admin'' \<and> f_ticket_id frm = k
         \<and> strip (or_empty (f_admin_note frm)) \<noteq> [] \<and> t_status tk \<noteq> ''closed''
         \<and> serve r d = admin_tickets_post clk admin frm d"
  then obtain clk admin frm where "f_ticket_id frm = k"
    "strip (or_empty (f_admin_note frm)) \<noteq> []" "t_status tk \<noteq> ''closed''"
    "serve r d = admin_tickets_post clk admin frm d"
    by blast
  with assms have "f_ticket_id frm = k \<and> get_ticket d (f_ticket_id frm) = Some tk
           \<and> strip (or_empty (f_admin_note frm)) \<noteq> [] \<and> t_status tk \<noteq> ''closed''
           \<and> fst (serve r d) = fst (admin_tickets_post clk admin frm d)"
    by simp
  then show ?thesis by blast
qed

lemma admin_tickets_accepts:
  assumes "current_user d sess = Some admin" and "u_role admin = ''admin''"
    and "get_ticket d (f_ticket_id frm) = Some tk"
    and "strip (or_empty (f_admin_note frm)) \<noteq> []" and "t_status tk \<noteq> ''closed''"
  shows "snd (admin_tickets clk sess POST frm d)
           = Redirect ''admin_tickets'' [(''success'', ''Ticket updated successfully.'')]"
  by (simp add: admin_tickets_as_admin [OF assms(1,2)] admin_post_accepted [OF assms(3,4,5)])

lemma form0_note: "strip (or_empty (f_admin_note (form0 act))) = ''Sedang dicek''"
  by (simp add: form0_def str_defs)

lemma form0_fields: "f_ticket_id (form0 act) = Some 1" "f_action (form0 act) = Some act"
  by (simp_all add: form0_def)

lemma sample_users:
  "current_user db0 (Some 1) = Some \<lparr>u_id = 1, u_full_name = ''Admin'', u_role = ''admin''\<rparr>"
  "current_user db0 (Some 2) = Some \<lparr>u_id = 2, u_full_name = ''Siti'', u_role = ''user''\<rparr>"
  "current_user db0 (Some 3) = Some \<lparr>u_id = 3, u_full_name = ''Budi'', u_role = ''user''\<rparr>"
  "current_user db_assigned (Some 4)
     = Some \<lparr>u_id = 4, u_full_name = ''Admin Dua'', u_role = ''admin''\<rparr>"
  "current_user db_closed (Some 1)
     = Some \<lparr>u_id = 1, u_full_name = ''Admin'', u_role = ''admin''\<rparr>"
  by (simp_all add: lookup_defs db0_def db_assigned_def db_closed_def)

lemma sample_rows:
  "get_ticket db0 (Some 1) = Some ticket0"
  "get_ticket db_assigned (Some 1)
     = Some (ticket0\<lparr>t_status := ''in_progress'', t_assigned_admin_id := Some 1\<rparr>)"
  "get_ticket db_resolved (Some 1)
     = Some (ticket0\<lparr>t_status := ''resolved'', t_completed_at := Some (now_wib clk0),
                    t_assigned_admin_id := Some 1\<rparr>)"
  "get_ticket db_closed (Some 1) = Some (ticket0\<lparr>t_status := ''closed''\<rparr>)"
  "get_ticket db_noted (Some 1) = Some (ticket0\<lparr>t_admin_note := Some ''  catatan lama ''\<rparr>)"
  by (simp_all add: get_ticket_def db0_def db_assigned_def db_resolved_def db_closed_def
        db_noted_def ticket0_def)

lemma sample_stamp: "strftime_dbYHM (now_wib clk0) = ''05 Mar 2024, 10:30 WIB''"
  by (simp add: clk0_def dt0_def strftime_dbYHM_def zfill_def month_abbr_def digits.simps
        digit_char_def)

lemma sample_accepts:
  "snd (admin_tickets clk0 (Some 1) POST (form0 act) db0)
     = Redirect ''admin_tickets'' [(''success'', ''Ticket updated successfully.'')]"
  "snd (admin_tickets clk0 (Some 4) POST (form0 act) db_assigned)
     = Redirect ''admin_tickets'' [(''success'', ''Ticket updated successfully.'')]"
proof -
  show "snd (admin_tickets clk0 (Some 1) POST (form0 act) db0)
     = Redirect ''admin_tickets'' [(''success'', ''Ticket updated successfully.'')]"
    by (rule admin_tickets_accepts [OF sample_users(1), where tk = ticket0])
       (simp_all add: form0_note form0_fields sample_rows, simp add: ticket0_def)
  show "snd (admin_tickets clk0 (Some 4) POST (form0 act) db_assigned)
     = Redirect ''admin_tickets'' [(''success'', ''Ticket updated successfully.'')]"
    by (rule admin_tickets_accepts [OF sample_users(4),
          where tk = "ticket0\<lparr>t_status := ''in_progress'', t_assigned_admin_id := Some 1\<rparr>"])
       (simp_all add: form0_note form0_fields sample_rows)
qed

subsection \<open>Status values of the rows\<close>

lemma commit_ticket_rows:
  assumes "t' \<in> set (tickets (snd (commit_ticket clk t d)))"
  shows "t' \<in> set (tickets d) \<or> t' = fst (commit_ticket clk t d)"
proof (cases "get_ticket d (Some (t_id t)) = Some t")
  case True
  with assms show ?thesis by (simp add: commit_ticket_def)
next
  case False
  with assms obtain r where "r \<in> set (tickets d)"
    and "t' = (if t_id r = t_id t then t\<lparr>t_updated_at := Some (utcnow clk)\<rparr> else r)"
    by (auto simp: commit_ticket_def Let_def)
  with False show ?thesis by (simp add: commit_ticket_def Let_def split: if_splits)
qed


lemma log_action_rows:
  assumes "t' \<in> set (tickets (snd (log_action clk uid act detail (t, d))))"
  shows "t' \<in> set (tickets d) \<or> t' = fst (log_action clk uid act detail (t, d))"
  using assms commit_ticket_rows [of t' clk t d] by simp

lemma apply_action_shape:
  "apply_action clk admin act t d = (t, d)
   \<or> (\<exists>detail t1. apply_action clk admin act t d
          = log_action clk (Some (u_id admin)) ''ticket_update_status'' detail (t1, d))"
proof -
  let ?log = "log_action clk (Some (u_id admin)) ''ticket_update_status''"
  let ?a = "if t_status t = ''open'' then t\<lparr>t_status := ''in_progress''\<rparr> else t"
  let ?b = "if t_status t = ''in_progress'' \<or> t_status t = ''resolved'' then
              (if t_status t \<noteq> ''resolved'' \<and> t_completed_at t = None
               then t\<lparr>t_completed_at := Some (now_wib clk)\<rparr> else t)\<lparr>t_status := ''resolved''\<rparr>
            else t"
  let ?c = "if t_status t \<noteq> ''closed'' then t\<lparr>t_status := ''closed''\<rparr> else t"
  consider (a) "act = Some ''accept''" | (b) "act = Some ''complete''" | (c) "act = Some ''close''"
    | (d) "act \<noteq> Some ''accept''" "act \<noteq> Some ''complete''" "act \<noteq> Some ''close''"
    by blast
  then show ?thesis
  proof cases
    case a
    then have "apply_action clk admin act t d = ?log (str_int (t_id ?a) @ '':in_progress'') (?a, d)"
      by (simp add: apply_action_def Let_def)
    then show ?thesis by blast
  next
    case b
    then have "apply_action clk admin act t d = ?log (str_int (t_id ?b) @ '':resolved'') (?b, d)"
      by (simp add: apply_action_def Let_def)
    then show ?thesis by blast
  next
    case c
    then have "apply_action clk admin act t d = ?log (str_int (t_id ?c) @ '':closed'') (?c, d)"
      by (simp add: apply_action_def Let_def)
    then show ?thesis by blast
  next
    case d
    then have "apply_action clk admin act t d = (t, d)" by (simp add: apply_action_def)
    then show ?thesis by blast
  qed
qed

lemma apply_action_rows:
  assumes "t' \<in> set (tickets (snd (apply_action clk admin act t d)))"
  shows "t' \<in> set (tickets d) \<or> t' = fst (apply_action clk admin act t d)"
  using apply_action_shape [of clk admin act t d]
proof (elim disjE exE)
  assume "apply_action clk admin act t d = (t, d)"
  with assms show ?thesis by simp
next
  fix detail t1
  assume e: "apply_action clk admin act t d
          = log_action clk (Some (u_id admin)) ''ticket_update_status'' detail (t1, d)"
  from assms show ?thesis unfolding e by (rule log_action_rows)
qed

lemma valid_status_cases:
  "valid_status s = (s = ''open'' \<or> s = ''in_progress'' \<or> s = ''resolved'' \<or> s = ''closed'')"
  by (auto simp: valid_status_def status_order_def)

lemma status_rank_values:
  "status_rank ''open'' = 0" "status_rank ''in_progress'' = 1"
  "status_rank ''resolved'' = 2" "status_rank ''closed'' = 3"
  by (simp_all add: status_rank_def status_order_def)

lemma apply_action_valid:
  "valid_status (t_status t) \<Longrightarrow> valid_status (t_status (fst (apply_action clk admin act t d)))"
  by (auto simp: apply_action_status valid_status_cases)

lemma admin_post_rows_valid:
  assumes "\<forall>t \<in> set (tickets d). valid_status (t_status t)"
  shows "\<forall>t \<in> set (tickets (fst (admin_tickets_post clk admin frm d))). valid_status (t_status t)"
proof (cases "strip (or_empty (f_admin_note frm)) = [] \<or> get_ticket d (f_ticket_id frm) = None
     \<or> (\<exists>t. get_ticket d (f_ticket_id frm) = Some t \<and> t_status t = ''closed'')")
  case True
  with assms show ?thesis by (simp add: admin_post_rejected)
next
  case False
  then obtain tk where tk: "get_ticket d (f_ticket_id frm) = Some tk"
    and n: "strip (or_empty (f_admin_note frm)) \<noteq> []" and s: "t_status tk \<noteq> ''closed''"
    by auto
  from tk have "tk \<in> set (tickets d)"
    by (auto simp: get_ticket_def find_Some_iff in_set_conv_nth split: option.splits)
  with assms have v: "valid_status (t_status tk)" by blast
  let ?t1 = "if t_assigned_admin_id tk = None
             then tk\<lparr>t_assigned_admin_id := Some (u_id admin)\<rparr> else tk"
  let ?p = "apply_action clk admin (f_action frm) ?t1 d"
  from v have v2: "valid_status (t_status (fst ?p))"
    by (intro apply_action_valid) simp
  show ?thesis
  proof
    fix t assume "t \<in> set (tickets (fst (admin_tickets_post clk admin frm d)))"
    then have "t \<in> set (tickets (snd ?p))
        \<or> t = fst (commit_ticket clk
                 (append_note clk (strip (or_empty (f_admin_note frm))) (fst ?p)) (snd ?p))"
      unfolding admin_post_accepted [OF tk n s] by (auto dest: commit_ticket_rows)
    then consider "t \<in> set (tickets d)" | "t = fst ?p"
      | "t = fst (commit_ticket clk
                 (append_note clk (strip (or_empty (f_admin_note frm))) (fst ?p)) (snd ?p))"
      by (auto dest: apply_action_rows)
    then show "valid_status (t_status t)"
    proof cases
      case 1 with assms show ?thesis by blast
    next
      case 2 with v2 show ?thesis by simp
    next
      case 3 with v2 show ?thesis by simp
    qed
  qed
qed

lemma serve_rows_valid:
  assumes "\<forall>t \<in> set (tickets d). valid_status (t_status t)"
  shows "\<forall>t \<in> set (tickets (fst (serve r d))). valid_status (t_status t)"
proof (cases r)
  case (Ticket_new clk sess meth frm)
  show ?thesis
  proof (cases "fst (ticket_new clk sess meth frm d) = d")
    case True
    with assms Ticket_new show ?thesis by simp
  next
    case False
    then obtain usr where p: "ticket_new clk sess meth frm d = ticket_new_post clk usr frm d"
      by (auto simp: ticket_new_def login_required_def split: option.splits if_splits)
    have s: "f_content_length frm \<le> MAX_CONTENT_LENGTH"
    proof (rule ccontr)
      assume "\<not> f_content_length frm \<le> MAX_CONTENT_LENGTH"
      then have "MAX_CONTENT_LENGTH < f_content_length frm" by simp
      from ticket_new_post_too_large [OF this, of clk usr d] p False show False by simp
    qed
    have n: "strip (or_empty (f_description frm)) \<noteq> []"
    proof
      assume "strip (or_empty (f_description frm)) = []"
      from ticket_new_post_rejected [OF s this, of clk usr d] p False show False by simp
    qed
    from ticket_new_post_created [OF s n, of clk usr d] assms p Ticket_new
    show ?thesis by (auto simp: valid_status_cases)
  qed
next
  case (Admin_tickets clk sess meth frm)
  from admin_tickets_cases [of clk sess meth frm d]
  consider "fst (admin_tickets clk sess meth frm d) = d"
    | admin where "admin_tickets clk sess meth frm d = admin_tickets_post clk admin frm d"
    by auto
  then show ?thesis
  proof cases
    case 1 with assms Admin_tickets show ?thesis by simp
  next
    case 2
    with admin_post_rows_valid [OF assms, of clk admin frm] Admin_tickets show ?thesis by simp
  qed
next
  case (Chat_messages sess tid)
  with assms show ?thesis by (simp add: chat_messages_tickets)
next
  case (Chat_send clk sess tid message)
  with assms show ?thesis by (simp add: chat_send_tickets)
qed

lemma run_rows_valid:
  "\<forall>t \<in> set (tickets d). valid_status (t_status t)
   \<Longrightarrow> \<forall>t \<in> set (tickets (run rs d)). valid_status (t_status t)"
proof (induction rs arbitrary: d)
  case Nil
  then show ?case by simp
next
  case (Cons r rs)
  from Cons.IH [OF serve_rows_valid [OF Cons.prems, of r]] show ?case by simp
qed

text \<open>
  What the admin handler does to the status of a ticket: a request that is not answered
  with success leaves it, a successful one sets it by the action and the status before,
  and no request moves it backward along \<open>open, in_progress, resolved, closed\<close> or off
  the four values.
\<close>

lemma admin_status_steps:
  assumes "get_ticket d k = Some tk" and "valid_status (t_status tk)"
  shows "(f_ticket_id frm = k \<longrightarrow>
           (\<exists>tk'. get_ticket (fst (admin_tickets clk sess meth frm d)) k = Some tk'
              \<and> t_status tk'
                  = (if snd (admin_tickets clk sess meth frm d)
                          \<noteq> Redirect ''admin_tickets''
                               [(''success'', ''Ticket updated successfully.'')]
                     then t_status tk
                     else if f_action frm = Some ''accept'' \<and> t_status tk = ''open''
                       then ''in_progress''
                     else if f_action frm = Some ''complete''
                             \<and> (t_status tk = ''in_progress'' \<or> t_status tk = ''resolved'')
                       then ''resolved''
                     else if f_action frm = Some ''close'' then ''closed''
                     else t_status tk)
              \<and> valid_status (t_status tk')
              \<and> status_rank (t_status tk) \<le> status_rank (t_status tk')
              \<and> (f_action frm \<noteq> Some ''close''
                   \<longrightarrow> status_rank (t_status tk') \<le> status_rank (t_status tk) + 1)))
       \<and> (\<exists>tk'. get_ticket (run rs d) k = Some tk' \<and> valid_status (t_status tk')
              \<and> status_rank (t_status tk) \<le> status_rank (t_status tk'))
       \<and> ((\<forall>t \<in> set (tickets d). valid_status (t_status t))
            \<longrightarrow> (\<forall>t \<in> set (tickets (run rs d)). valid_status (t_status t)))"
proof (intro conjI impI)
  assume k: "f_ticket_id frm = k"
  let ?ok = "snd (admin_tickets clk sess meth frm d)
               = Redirect ''admin_tickets'' [(''success'', ''Ticket updated successfully.'')]"
  let ?new = "if f_action frm = Some ''accept'' \<and> t_status tk = ''open'' then ''in_progress''
            else if f_action frm = Some ''complete''
                    \<and> (t_status tk = ''in_progress'' \<or> t_status tk = ''resolved'')
              then ''resolved''
            else if f_action frm = Some ''close'' then ''closed''
            else t_status tk"
  show "\<exists>tk'. get_ticket (fst (admin_tickets clk sess meth frm d)) k = Some tk'
              \<and> t_status tk' = (if \<not> ?ok then t_status tk else ?new)
              \<and> valid_status (t_status tk')
              \<and> status_rank (t_status tk) \<le> status_rank (t_status tk')
              \<and> (f_action frm \<noteq> Some ''close''
                   \<longrightarrow> status_rank (t_status tk') \<le> status_rank (t_status tk) + 1)"
  proof (cases ?ok)
    case False
    from admin_tickets_no_success [OF False] assms False show ?thesis by simp
  next
    case True
    from admin_tickets_success [OF True] k assms
    obtain admin where row: "get_ticket d (f_ticket_id frm) = Some tk"
      and ok: "strip (or_empty (f_admin_note frm)) \<noteq> []" "t_status tk \<noteq> ''closed''"
      and post: "admin_tickets clk sess meth frm d = admin_tickets_post clk admin frm d"
      by auto
    from admin_post_row [OF row ok, of clk admin] k post
    obtain tk' where r: "get_ticket (fst (admin_tickets clk sess meth frm d)) k = Some tk'"
      and s: "t_status tk' = ?new"
      by auto
    from assms(2) consider "t_status tk = ''open''" | "t_status tk = ''in_progress''"
      | "t_status tk = ''resolved''" | "t_status tk = ''closed''"
      by (auto simp: valid_status_cases)
    then have "valid_status (t_status tk')
              \<and> status_rank (t_status tk) \<le> status_rank (t_status tk')
              \<and> (f_action frm \<noteq> Some ''close''
                   \<longrightarrow> status_rank (t_status tk') \<le> status_rank (t_status tk) + 1)"
      by cases (simp_all add: s valid_status_cases status_rank_values)
    with r s True show ?thesis by simp
  qed
next
  let ?I = "\<lambda>b. valid_status (t_status b) \<and> status_rank (t_status tk) \<le> status_rank (t_status b)"
  have step: "\<exists>b. get_ticket (fst (serve r d')) k = Some b \<and> ?I b"
    if "get_ticket d' k = Some a" and "?I a" for d' a r
  proof -
    from serve_admin_step [OF that(1), of r]
    consider "get_ticket (fst (serve r d')) k = Some a"
      | clk' admin frm' where "f_ticket_id frm' = k" "get_ticket d' (f_ticket_id frm') = Some a"
          "strip (or_empty (f_admin_note frm')) \<noteq> []" "t_status a \<noteq> ''closed''"
          "fst (serve r d') = fst (admin_tickets_post clk' admin frm' d')"
      by auto
    then show ?thesis
    proof cases
      case 1
      with that show ?thesis by simp
    next
      case 2
      from admin_post_row [OF 2(2,3,4), of clk' admin] 2(1,5)
      obtain b where r: "get_ticket (fst (serve r d')) k = Some b"
        and s: "t_status b
         = (if f_action frm' = Some ''accept'' \<and> t_status a = ''open'' then ''in_progress''
            else if f_action frm' = Some ''complete''
                    \<and> (t_status a = ''in_progress'' \<or> t_status a = ''resolved'')
              then ''resolved''
            else if f_action frm' = Some ''close'' then ''closed''
            else t_status a)"
        by auto
      from that(2) consider "t_status a = ''open''" | "t_status a = ''in_progress''"
        | "t_status a = ''resolved''" | "t_status a = ''closed''"
        by (auto simp: valid_status_cases)
      then have "valid_status (t_status b) \<and> status_rank (t_status a) \<le> status_rank (t_status b)"
        by cases (simp_all add: s valid_status_cases status_rank_values)
      with that(2) r show ?thesis by auto
    qed
  qed
  from assms(2) have "?I tk" by simp
  from run_rows [where I = ?I, OF step assms(1) this]
  show "\<exists>tk'. get_ticket (run rs d) k = Some tk' \<and> valid_status (t_status tk')
              \<and> status_rank (t_status tk) \<le> status_rank (t_status tk')"
    by simp
next
  assume "\<forall>t \<in> set (tickets d). valid_status (t_status t)"
  then show "\<forall>t \<in> set (tickets (run rs d)). valid_status (t_status t)"
    by (rule run_rows_valid)
qed

subsection \<open>Digits and stamps\<close>

text \<open>
  The rendering functions of the code against the digits written out: they agree on the
  numbers, months and years they are compared on.
\<close>

lemma length_zfill: "length (zfill w s) = max w (length s)"
  by (simp add: zfill_def)

lemma below_ten:
  "k < 10 \<Longrightarrow> k = 0 \<or> k = 1 \<or> k = 2 \<or> k = 3 \<or> k = 4 \<or> k = 5 \<or> k = 6 \<or> k = 7 \<or> k = 8
     \<or> k = (9::nat)"
  by arith

lemma digit_char_decimal: "k < 10 \<Longrightarrow> digit_char k = decimal_digit k"
  by (drule below_ten) (auto simp: digit_char_def decimal_digit_def)

lemma digits_one: "n < 10 \<Longrightarrow> digits n = [decimal_digit n]"
  by (simp add: digits.simps digit_char_decimal)

lemma digits_step: "10 \<le> n \<Longrightarrow> digits n = digits (n div 10) @ [decimal_digit (n mod 10)]"
  by (subst digits.simps) (simp add: digit_char_decimal)

lemma digits_two: "10 \<le> n \<Longrightarrow> n < 100 \<Longrightarrow> digits n = two_digits n"
  by (simp add: digits_step digits_one two_digits_def)

lemma digits_three: "100 \<le> n \<Longrightarrow> n < 1000 \<Longrightarrow> digits n = three_digits n"
proof -
  assume a: "100 \<le> n" "n < 1000"
  then have "10 \<le> n div 10" "n div 10 < 100" by simp_all
  moreover have "n div 10 div 10 = n div 100" by (simp add: div_mult2_eq [symmetric])
  ultimately show ?thesis using a digits_two [of "n div 10"]
    by (simp add: digits_step three_digits_def two_digits_def)
qed

lemma digits_four: "1000 \<le> n \<Longrightarrow> n < 10000 \<Longrightarrow> digits n = four_digits n"
proof -
  assume a: "1000 \<le> n" "n < 10000"
  then have "100 \<le> n div 10" "n div 10 < 1000" by simp_all
  moreover have "n div 10 div 100 = n div 1000" "n div 10 div 10 = n div 100"
    by (simp_all add: div_mult2_eq [symmetric])
  ultimately show ?thesis using a digits_three [of "n div 10"]
    by (simp add: digits_step four_digits_def three_digits_def two_digits_def)
qed

lemma zfill_two: "n < 100 \<Longrightarrow> zfill 2 (digits n) = two_digits n"
proof (cases "n < 10")
  case True
  then show ?thesis
    by (simp add: digits_one zfill_def two_digits_def decimal_digit_def numeral_2_eq_2)
next
  case False
  assume "n < 100"
  with False show ?thesis by (simp add: digits_two zfill_def two_digits_def)
qed

lemma zfill_three: "n < 1000 \<Longrightarrow> zfill 3 (digits n) = three_digits n"
proof (cases "n < 100")
  case True
  from zfill_two [OF True] True show ?thesis
    by (cases "n < 10")
       (simp_all add: digits_one digits_two zfill_def three_digits_def two_digits_def
          decimal_digit_def numeral_2_eq_2 numeral_3_eq_3)
next
  case False
  assume "n < 1000"
  with False show ?thesis by (simp add: digits_three zfill_def three_digits_def two_digits_def)
qed

lemma format_03d_three: "0 \<le> i \<Longrightarrow> i \<le> 999 \<Longrightarrow> format_03d i = three_digits (nat i)"
  by (simp add: format_03d_def zfill_three)

lemma days_in_month_bounds: "1 \<le> days_in_month y m" "days_in_month y m \<le> 31"
  by (simp_all add: days_in_month_def)

lemma strftime_Ymd_yyyymmdd:
  assumes "1000 \<le> year dt" and "year dt \<le> 9999" and "month dt \<le> 12" and "day dt \<le> 31"
  shows "strftime_Ymd dt = yyyymmdd dt"
  using assms by (simp add: strftime_Ymd_def yyyymmdd_def digits_four zfill_two)

lemma month_abbr_name: "1 \<le> m \<Longrightarrow> m \<le> 12 \<Longrightarrow> month_abbr m = month_name m"
proof -
  assume "1 \<le> m" "m \<le> 12"
  then have "m = 1 \<or> m = 2 \<or> m = 3 \<or> m = 4 \<or> m = 5 \<or> m = 6 \<or> m = 7 \<or> m = 8 \<or> m = 9
     \<or> m = 10 \<or> m = 11 \<or> m = 12"
    by arith
  then show ?thesis by (auto simp: month_abbr_def month_name_def)
qed

lemma strftime_dbYHM_stamp:
  assumes "valid_datetime dt" and "1000 \<le> year dt" and "year dt \<le> 9999"
  shows "strftime_dbYHM dt = wib_stamp dt"
proof -
  from assms(1) days_in_month_bounds(2) [of "year dt" "month dt"]
  have "1 \<le> month dt" "month dt \<le> 12" "day dt < 100" "hour dt < 100" "minute dt < 100"
    by (simp_all add: valid_datetime_def)
  with assms(2,3) show ?thesis
    by (simp add: strftime_dbYHM_def wib_stamp_def digits_four zfill_two month_abbr_name)
qed

lemma sample_clock:
  "valid_datetime (now_wib clk0)" "1000 \<le> year (now_wib clk0)" "year (now_wib clk0) \<le> 9999"
  by (simp_all add: valid_datetime_def days_in_month_def clk0_def dt0_def)

lemma sample_wib_stamp: "wib_stamp (now_wib clk0) = ''05 Mar 2024, 10:30 WIB''"
  by (simp add: clk0_def dt0_def wib_stamp_def four_digits_def three_digits_def two_digits_def
        decimal_digit_def month_name_def)

subsection \<open>Days on the calendar and zone shifts\<close>

text \<open>
  The day after a date is the next day number, and moving a wall clock forward by less
  than a day moves its place on the calendar by as many minutes.
\<close>

lemma days_before_year_Suc:
  assumes "1 \<le> y"
  shows "days_before_year (y + 1) = days_before_year y + 365 + (if is_leap y then 1 else 0)"
proof -
  from assms obtain k where y: "y = Suc k" by (cases y) auto
  define a b c where "a = k div 4" and "b = k div 400" and "c = k div 100"
  define p q r where "p = (Suc k mod 4 = 0)" and "q = (Suc k mod 100 = 0)"
    and "r = (Suc k mod 400 = 0)"
  have le: "c \<le> a" unfolding a_def c_def by (rule div_le_mono2) simp_all
  have m1: "q \<Longrightarrow> p" unfolding p_def q_def by presburger
  have m2: "r \<Longrightarrow> q" unfolding q_def r_def by presburger
  have d4: "Suc k div 4 = a + (if p then 1 else 0)" by (simp add: div_Suc a_def p_def)
  have d100: "Suc k div 100 = c + (if q then 1 else 0)" by (simp add: div_Suc c_def q_def)
  have d400: "Suc k div 400 = b + (if r then 1 else 0)" by (simp add: div_Suc b_def r_def)
  have leap: "is_leap (Suc k) = (p \<and> (\<not> q \<or> r))" by (simp add: is_leap_def p_def q_def r_def)
  have new: "days_before_year (Suc k + 1)
          = 365 * Suc k + (a + (if p then 1 else 0)) + (b + (if r then 1 else 0))
            - (c + (if q then 1 else 0))"
    by (simp add: days_before_year_def d4 d100 d400)
  have old: "days_before_year (Suc k) = 365 * k + a + b - c"
    by (simp add: days_before_year_def a_def b_def c_def)
  consider (n) "\<not> p" "\<not> q" "\<not> r" | (l) "p" "\<not> q" "\<not> r" | (c) "p" "q" "\<not> r" | (f) "p" "q" "r"
    using m1 m2 by blast
  then have "365 * Suc k + (a + (if p then 1 else 0)) + (b + (if r then 1 else 0))
            - (c + (if q then 1 else 0))
         = (365 * k + a + b - c) + 365 + (if p \<and> (\<not> q \<or> r) then 1 else 0)"
    using le by cases simp_all
  with new old leap show ?thesis by (simp add: y)
qed

lemma days_before_month_Suc:
  assumes "1 \<le> m" and "m < 12"
  shows "days_before_month y (m + 1) = days_before_month y m + days_in_month y m"
proof -
  from assms have "m = 1 \<or> m = 2 \<or> m = 3 \<or> m = 4 \<or> m = 5 \<or> m = 6 \<or> m = 7 \<or> m = 8
     \<or> m = 9 \<or> m = 10 \<or> m = 11"
    by arith
  then show ?thesis
    by (elim disjE) (simp_all add: days_before_month_def days_in_month_def is_leap_def)
qed

lemma days_before_month_12:
  "days_before_month y 12 + 31 = 365 + (if is_leap y then 1 else 0)"
  by (simp add: days_before_month_def is_leap_def)

lemma days_before_month_1: "days_before_month y 1 = 0" "days_before_month y (Suc 0) = 0"
  by (simp_all add: days_before_month_def)

lemma next_day_number:
  assumes "1 \<le> year dt" and "1 \<le> month dt" and "month dt \<le> 12" and "1 \<le> day dt"
    and "day dt \<le> days_in_month (year dt) (month dt)"
  shows "day_number (next_day dt) = day_number dt + 1"
proof -
  consider (d) "day dt < days_in_month (year dt) (month dt)"
    | (m) "day dt = days_in_month (year dt) (month dt)" "month dt < 12"
    | (y) "day dt = days_in_month (year dt) (month dt)" "month dt = 12"
    using assms by arith
  then show ?thesis
  proof cases
    case d
    then show ?thesis by (simp add: next_day_def day_number_def)
  next
    case m
    with days_before_month_Suc [OF assms(2) m(2), of "year dt"] show ?thesis
      by (simp add: next_day_def day_number_def)
  next
    case y
    then have "day dt = 31" by (simp add: days_in_month_def)
    with y days_before_year_Suc [OF assms(1)] days_before_month_12 [of "year dt"]
    show ?thesis
      by (simp add: next_day_def day_number_def days_before_month_1 days_in_month_def)
  qed
qed

lemma next_day_date:
  assumes "1 \<le> month dt \<and> month dt \<le> 12 \<and> 1 \<le> day dt
           \<and> day dt \<le> days_in_month (year dt) (month dt)"
  shows "1 \<le> month (next_day dt) \<and> month (next_day dt) \<le> 12 \<and> 1 \<le> day (next_day dt)
         \<and> day (next_day dt) \<le> days_in_month (year (next_day dt)) (month (next_day dt))
         \<and> year dt \<le> year (next_day dt) \<and> year (next_day dt) \<le> year dt + 1"
  using assms days_in_month_bounds(1) [of "year dt" "month dt + 1"]
    days_in_month_bounds(1) [of "year dt + 1" 1]
  by (auto simp: next_day_def)

lemma next_day_time:
  "hour (next_day dt) = hour dt" "minute (next_day dt) = minute dt"
  "second (next_day dt) = second dt" "tzinfo (next_day dt) = tzinfo dt"
  by (simp_all add: next_day_def)

lemma shift_days_0_1: "shift_days 0 dt = dt" "shift_days 1 dt = next_day dt"
  by (simp_all add: shift_days_def)

lemma add_minutes_zero:
  assumes "valid_datetime dt" and "1 \<le> year dt" and "year dt \<le> 9999"
  shows "add_minutes 0 dt = Some dt"
proof -
  define n where "n = hour dt * 60 + minute dt"
  from assms(1) have "hour dt < 24" "minute dt < 60" by (simp_all add: valid_datetime_def)
  then have n: "n < 1440" "n div 60 = hour dt" "n mod 60 = minute dt"
    by (simp_all add: n_def)
  then have t: "int n div 1440 = 0" "nat (int n mod 1440) = n" by simp_all
  have "add_minutes 0 dt = Some (dt\<lparr>hour := n div 60, minute := n mod 60\<rparr>)"
    using assms(2,3) unfolding add_minutes_def Let_def n_def [symmetric]
    by (simp add: t shift_days_0_1)
  then show ?thesis by (simp add: n)
qed

lemma add_minutes_forward:
  assumes "valid_datetime dt" and "1 \<le> year dt" and "year dt \<le> 9998"
    and "0 \<le> delta" and "delta < 1440"
  shows "\<exists>r. add_minutes delta dt = Some r \<and> valid_datetime r
           \<and> wall_minutes r = wall_minutes dt + delta \<and> tzinfo r = tzinfo dt
           \<and> year dt \<le> year r \<and> year r \<le> year dt + 1"
proof -
  define total where "total = int (hour dt * 60 + minute dt) + delta"
  define hm where "hm = nat (total mod 1440)"
  from assms(1) have v: "1 \<le> month dt \<and> month dt \<le> 12 \<and> 1 \<le> day dt
           \<and> day dt \<le> days_in_month (year dt) (month dt)"
    and hm0: "hour dt < 24" "minute dt < 60" and s: "second dt < 60"
    by (simp_all add: valid_datetime_def)
  from hm0 have "hour dt * 60 + minute dt < 1440" by simp
  with assms(4,5) have t: "0 \<le> total" "total < 2880" by (simp_all add: total_def)
  have hm: "hm < 1440" "int hm = total mod 1440" by (simp_all add: hm_def)
  then have h24: "hm div 60 < 24" and m60: "hm mod 60 < 60" by simp_all
  have split: "int (hm div 60) * 60 + int (hm mod 60) = total mod 1440"
    using hm(2) by (metis mult.commute of_nat_add of_nat_mult of_nat_numeral div_mult_mod_eq)
  have base: "wall_minutes dt + delta = int (day_number dt) * 1440 + total"
    by (simp add: wall_minutes_def total_def)
  consider (same) "total div 1440 = 0" | (carry) "total div 1440 = 1"
    using t by (cases "total < 1440") simp_all
  then show ?thesis
  proof cases
    case same
    define r where "r = dt\<lparr>hour := hm div 60, minute := hm mod 60\<rparr>"
    from same t have tm: "total mod 1440 = total" by simp
    have e: "add_minutes delta dt = Some r"
      using assms(2,3) same
      by (simp add: add_minutes_def Let_def shift_days_0_1 r_def hm_def total_def
            del: of_nat_add of_nat_mult)
    have w: "wall_minutes r = wall_minutes dt + delta"
      unfolding base using split tm by (simp add: wall_minutes_def r_def day_number_def)
    from v h24 m60 s have "valid_datetime r" by (simp add: valid_datetime_def r_def)
    with e w show ?thesis by (simp add: r_def)
  next
    case carry
    define r where "r = (next_day dt)\<lparr>hour := hm div 60, minute := hm mod 60\<rparr>"
    from carry have tm: "total mod 1440 = total - 1440"
      by (metis add.commute minus_mod_eq_mult_div mult.right_neutral
           diff_add_cancel add_diff_cancel_left')
    note nd = next_day_date [OF v]
    from nd assms(3) have y: "year (next_day dt) \<le> 9999" "1 \<le> year (next_day dt)"
      using assms(2) by auto
    have e: "add_minutes delta dt = Some r"
      using y carry
      by (simp add: add_minutes_def Let_def shift_days_0_1 r_def hm_def total_def
            del: of_nat_add of_nat_mult)
    from v assms(2) have "day_number (next_day dt) = day_number dt + 1"
      by (intro next_day_number) simp_all
    then have w: "wall_minutes r = wall_minutes dt + delta"
      unfolding base using split tm by (simp add: wall_minutes_def r_def day_number_def)
    from nd h24 m60 s have "valid_datetime r"
      by (simp add: valid_datetime_def r_def next_day_time)
    with e w nd show ?thesis by (simp add: r_def next_day_time)
  qed
qed

lemma length_yyyymmdd: "length (yyyymmdd dt) = 8"
  by (simp add: yyyymmdd_def four_digits_def three_digits_def two_digits_def)

lemma length_three_digits: "length (three_digits n) = 3"
  by (simp add: three_digits_def two_digits_def)

lemma astimezone_utc:
  assumes "valid_datetime dt" and "tzinfo dt = None" and "1 \<le> year dt" and "year dt \<le> 9998"
  shows "\<exists>w. astimezone 0 WIB dt = Some w \<and> valid_datetime w
           \<and> wall_minutes w = wall_minutes dt + 420 \<and> tzinfo w = Some WIB
           \<and> year dt \<le> year w \<and> year w \<le> year dt + 1"
proof -
  from assms(4) have "year dt \<le> 9999" by simp
  from add_minutes_zero [OF assms(1,3) this] have z: "add_minutes (- 0) dt = Some dt" by simp
  from add_minutes_forward [OF assms(1,3,4), of WIB]
  obtain r where r: "add_minutes WIB dt = Some r" "valid_datetime r"
    "wall_minutes r = wall_minutes dt + WIB" "year dt \<le> year r" "year r \<le> year dt + 1"
    by (auto simp: WIB_def)
  have "astimezone 0 WIB dt = Some (r\<lparr>tzinfo := Some WIB\<rparr>)"
    using assms(2) z r(1) by (simp add: astimezone_def)
  moreover have "valid_datetime (r\<lparr>tzinfo := Some WIB\<rparr>)"
    using r(2) by (simp add: valid_datetime_def)
  moreover have "wall_minutes (r\<lparr>tzinfo := Some WIB\<rparr>) = wall_minutes dt + 420"
    using r(3) by (simp add: wall_minutes_def day_number_def WIB_def)
  ultimately show ?thesis using r(4,5) by simp
qed

section \<open>Ticket chat: read flags and privacy\<close>

text \<open>
  C4. Whenever \<open>chat_send\<close> answers success, exactly one row was appended to the message
  table; it is on the ticket, from the current user, carries the trimmed text, and is read
  on the sender's side only: for an admin \<open>is_read_admin\<close> is true and \<open>is_read_user\<close>
  false, for anyone else (who is then the ticket's owner) \<open>is_read_user\<close> is true and
  \<open>is_read_admin\<close> false.
\<close>

theorem chat_send_read_flags:
  assumes "chat_send clk sess tid message d = (d', Json_success True)"
  shows "\<exists>usr ticket m. current_user d sess = Some usr
           \<and> get_ticket d (Some tid) = Some ticket
           \<and> ticket_messages d' = ticket_messages d @ [m]
           \<and> m_ticket_id m = tid \<and> m_sender_id m = u_id usr
           \<and> m_message m = strip (or_empty message)
           \<and> (u_role usr = ''admin'' \<longrightarrow> m_is_read_admin m \<and> \<not> m_is_read_user m)
           \<and> (u_role usr \<noteq> ''admin'' \<longrightarrow>
                 t_user_id ticket = u_id usr \<and> m_is_read_user m \<and> \<not> m_is_read_admin m)"
  using assms
  by (auto simp: chat_send_def chat_send_view_def login_required_def Let_def
           split: option.splits if_splits)

theorem chat_send_read_flags_witness:
  "\<exists>d' usr m. chat_send clk0 (Some 1) 1 (Some '' ok '') db0 = (d', Json_success True)
      \<and> current_user db0 (Some 1) = Some usr \<and> u_role usr = ''admin''
      \<and> ticket_messages d' = ticket_messages db0 @ [m]
      \<and> m_is_read_admin m \<and> \<not> m_is_read_user m"
proof -
  have "snd (chat_send clk0 (Some 1) 1 (Some '' ok '') db0) = Json_success True"
    by (simp add: chat_send_def chat_send_view_def lookup_defs str_defs db0_def ticket0_def)
  then obtain d' where e: "chat_send clk0 (Some 1) 1 (Some '' ok '') db0 = (d', Json_success True)"
    by (cases "chat_send clk0 (Some 1) 1 (Some '' ok '') db0") simp
  have u: "current_user db0 (Some 1) = Some \<lparr>u_id = 1, u_full_name = ''Admin'', u_role = ''admin''\<rparr>"
    by (simp add: lookup_defs db0_def)
  from chat_send_read_flags [OF e] u e show ?thesis by auto
qed

text \<open>
  C9. For a logged-in user and an existing ticket: a user who is neither an admin nor the
  owner gets the empty list from \<open>chat_messages\<close> and failure from \<open>chat_send\<close>, and the
  database (messages and read flags included) stays as it was; \<open>chat_send\<close> also fails and
  stores nothing when the trimmed message is empty.
\<close>

theorem chat_private:
  assumes "current_user d sess = Some usr" and "get_ticket d (Some tid) = Some ticket"
  shows "(u_role usr \<noteq> ''admin'' \<and> t_user_id ticket \<noteq> u_id usr \<longrightarrow>
            chat_messages sess tid d = (d, Json_messages [])
          \<and> chat_send clk sess tid message d = (d, Json_success False))
       \<and> (strip (or_empty message) = [] \<longrightarrow>
            chat_send clk sess tid message d = (d, Json_success False))"
  using assms
  by (simp add: chat_messages_def chat_messages_view_def chat_send_def chat_send_view_def
        current_user_logged_in)

theorem chat_private_witness:
  "chat_messages (Some 3) 1 db0 = (db0, Json_messages [])
   \<and> chat_send clk0 (Some 3) 1 (Some ''Halo'') db0 = (db0, Json_success False)
   \<and> chat_send clk0 (Some 2) 1 (Some ''   '') db0 = (db0, Json_success False)"
proof -
  have u3: "current_user db0 (Some 3) = Some \<lparr>u_id = 3, u_full_name = ''Budi'', u_role = ''user''\<rparr>"
    by (simp add: lookup_defs db0_def)
  have u2: "current_user db0 (Some 2) = Some \<lparr>u_id = 2, u_full_name = ''Siti'', u_role = ''user''\<rparr>"
    by (simp add: lookup_defs db0_def)
  have t: "get_ticket db0 (Some 1) = Some ticket0"
    by (simp add: lookup_defs db0_def ticket0_def)
  have s: "strip (or_empty (Some ''   '')) = []"
    by (simp add: str_defs)
  from chat_private [OF u3 t, where message = "Some ''Halo''" and clk = clk0]
       chat_private [OF u2 t, where message = "Some ''   ''" and clk = clk0] s
  show ?thesis by (simp add: ticket0_def)
qed

text \<open>
  C5. When an admin or the ticket's owner fetches \<open>chat_messages\<close>, the message table
  keeps its rows; every row of the ticket sent by someone else has the reader's flag set
  afterwards (\<open>is_read_admin\<close> for an admin, \<open>is_read_user\<close> otherwise); rows of other
  tickets and the reader's own rows are untouched; and in every row the id, ticket,
  sender, text, timestamp and the opposite side's flag are what they were. Users, tickets
  and activity logs are unchanged.
\<close>

theorem chat_messages_marks_read:
  assumes "current_user d sess = Some usr" and "get_ticket d (Some tid) = Some ticket"
    and "u_role usr = ''admin'' \<or> t_user_id ticket = u_id usr"
  shows "length (ticket_messages (fst (chat_messages sess tid d))) = length (ticket_messages d)
       \<and> (\<forall>i < length (ticket_messages d).
            (m_ticket_id (ticket_messages d ! i) = tid
               \<and> m_sender_id (ticket_messages d ! i) \<noteq> u_id usr \<longrightarrow>
               (if u_role usr = ''admin''
                then m_is_read_admin (ticket_messages (fst (chat_messages sess tid d)) ! i)
                else m_is_read_user (ticket_messages (fst (chat_messages sess tid d)) ! i)))
          \<and> (m_ticket_id (ticket_messages d ! i) \<noteq> tid
               \<or> m_sender_id (ticket_messages d ! i) = u_id usr \<longrightarrow>
               ticket_messages (fst (chat_messages sess tid d)) ! i = ticket_messages d ! i)
          \<and> m_id (ticket_messages (fst (chat_messages sess tid d)) ! i)
              = m_id (ticket_messages d ! i)
          \<and> m_ticket_id (ticket_messages (fst (chat_messages sess tid d)) ! i)
              = m_ticket_id (ticket_messages d ! i)
          \<and> m_sender_id (ticket_messages (fst (chat_messages sess tid d)) ! i)
              = m_sender_id (ticket_messages d ! i)
          \<and> m_message (ticket_messages (fst (chat_messages sess tid d)) ! i)
              = m_message (ticket_messages d ! i)
          \<and> m_created_at (ticket_messages (fst (chat_messages sess tid d)) ! i)
              = m_created_at (ticket_messages d ! i)
          \<and> (if u_role usr = ''admin''
              then m_is_read_user (ticket_messages (fst (chat_messages sess tid d)) ! i)
                   = m_is_read_user (ticket_messages d ! i)
              else m_is_read_admin (ticket_messages (fst (chat_messages sess tid d)) ! i)
                   = m_is_read_admin (ticket_messages d ! i)))
       \<and> users (fst (chat_messages sess tid d)) = users d
       \<and> tickets (fst (chat_messages sess tid d)) = tickets d
       \<and> activity_logs (fst (chat_messages sess tid d)) = activity_logs d"
proof -
  let ?mark = "if u_role usr = ''admin'' then mark_read_admin (u_id usr)
               else mark_read_user (u_id usr)"
  have rows: "ticket_messages (fst (chat_messages sess tid d))
              = map (on_ticket tid ?mark) (ticket_messages d)"
    using assms
    by (auto simp: chat_messages_def chat_messages_view_def current_user_logged_in Let_def)
  have rest: "users (fst (chat_messages sess tid d)) = users d
       \<and> tickets (fst (chat_messages sess tid d)) = tickets d
       \<and> activity_logs (fst (chat_messages sess tid d)) = activity_logs d"
    using assms
    by (auto simp: chat_messages_def chat_messages_view_def current_user_logged_in Let_def)
  show ?thesis
    unfolding rows using rest
    by (auto simp: on_ticket_def mark_read_admin_def mark_read_user_def)
qed

theorem chat_messages_marks_read_witness:
  "length (ticket_messages (fst (chat_messages (Some 1) 1 db0))) = 1
   \<and> m_is_read_admin (ticket_messages (fst (chat_messages (Some 1) 1 db0)) ! 0)
   \<and> m_is_read_user (ticket_messages (fst (chat_messages (Some 1) 1 db0)) ! 0)
   \<and> m_message (ticket_messages (fst (chat_messages (Some 1) 1 db0)) ! 0) = ''Halo''
   \<and> m_sender_id (ticket_messages (fst (chat_messages (Some 1) 1 db0)) ! 0) = 2
   \<and> tickets (fst (chat_messages (Some 1) 1 db0)) = tickets db0"
proof -
  have u: "current_user db0 (Some 1) = Some \<lparr>u_id = 1, u_full_name = ''Admin'', u_role = ''admin''\<rparr>"
    by (simp add: lookup_defs db0_def)
  have t: "get_ticket db0 (Some 1) = Some ticket0"
    by (simp add: lookup_defs db0_def ticket0_def)
  have a: "u_role \<lparr>u_id = 1, u_full_name = ''Admin'', u_role = ''admin''\<rparr> = ''admin''
           \<or> t_user_id ticket0 = u_id \<lparr>u_id = 1, u_full_name = ''Admin'', u_role = ''admin''\<rparr>"
    by simp
  have m: "ticket_messages db0 = [message0]"
    by (simp add: db0_def)
  from chat_messages_marks_read [OF u t a] m show ?thesis
    by (simp add: message0_def)
qed

section \<open>The ticket lifecycle\<close>

text \<open>
  C8. A closed ticket is final. An admin request on it, whatever the action, leaves the
  whole database as it was (so status, admin_note, completed_at and assigned_admin_id keep
  their committed values), an admin who submits a note is told the ticket is closed, and
  after any sequence of requests to the four routes the ticket's row is still the same
  row, hence still closed.
\<close>

theorem closed_is_terminal:
  assumes "get_ticket d k = Some tk" and "t_status tk = ''closed''"
  shows "(f_ticket_id frm = k \<longrightarrow> fst (admin_tickets clk sess meth frm d) = d)
       \<and> (f_ticket_id frm = k \<and> current_user d sess = Some admin \<and> u_role admin = ''admin''
            \<and> strip (or_empty (f_admin_note frm)) \<noteq> [] \<longrightarrow>
            snd (admin_tickets clk sess POST frm d)
              = Redirect ''admin_tickets''
                  [(''danger'', ''Ticket is already closed and cannot be modified.'')])
       \<and> get_ticket (run rs d) k = Some tk"
proof (intro conjI impI)
  assume k: "f_ticket_id frm = k"
  with assms have rej: "admin_tickets_post clk a frm d
      = (d, Redirect ''admin_tickets''
               [(''danger'',
                 if strip (or_empty (f_admin_note frm)) = []
                 then ''Catatan admin wajib diisi sebelum melakukan aksi pada tiket.''
                 else if get_ticket d (f_ticket_id frm) = None then ''Ticket not found.''
                 else ''Ticket is already closed and cannot be modified.'')])" for a
    by (intro admin_post_rejected) simp
  from admin_tickets_cases [of clk sess meth frm d] rej
  show "fst (admin_tickets clk sess meth frm d) = d" by auto
next
  assume a: "f_ticket_id frm = k \<and> current_user d sess = Some admin \<and> u_role admin = ''admin''
            \<and> strip (or_empty (f_admin_note frm)) \<noteq> []"
  with assms have "admin_tickets_post clk admin frm d
      = (d, Redirect ''admin_tickets''
               [(''danger'', ''Ticket is already closed and cannot be modified.'')])"
    by (subst admin_post_rejected) auto
  with a show "snd (admin_tickets clk sess POST frm d)
              = Redirect ''admin_tickets''
                  [(''danger'', ''Ticket is already closed and cannot be modified.'')]"
    by (simp add: admin_tickets_as_admin)
next
  have "\<exists>b. get_ticket (run rs d) k = Some b \<and> b = tk"
  proof (rule run_rows [where I = "\<lambda>b. b = tk"])
    fix d' a r
    assume "get_ticket d' k = Some a" and "a = tk"
    with serve_row [of d' k a r] assms(2)
    show "\<exists>b. get_ticket (fst (serve r d')) k = Some b \<and> b = tk" by auto
  qed (use assms in auto)
  then show "get_ticket (run rs d) k = Some tk" by simp
qed

theorem closed_is_terminal_witness:
  "fst (admin_tickets clk0 (Some 1) POST (form0 ''accept'') db_closed) = db_closed
   \<and> snd (admin_tickets clk0 (Some 1) POST (form0 ''accept'') db_closed)
       = Redirect ''admin_tickets''
           [(''danger'', ''Ticket is already closed and cannot be modified.'')]
   \<and> get_ticket (run [Admin_tickets clk0 (Some 1) POST (form0 ''accept''),
                       Admin_tickets clk0 (Some 1) POST (form0 ''complete''),
                       Admin_tickets clk0 (Some 1) POST (form0 ''close'')] db_closed) (Some 1)
       = Some (ticket0\<lparr>t_status := ''closed''\<rparr>)"
proof -
  have t: "get_ticket db_closed (Some 1) = Some (ticket0\<lparr>t_status := ''closed''\<rparr>)"
    by (simp add: get_ticket_def db_closed_def db0_def ticket0_def)
  have s: "t_status (ticket0\<lparr>t_status := ''closed''\<rparr>) = ''closed''" by simp
  have u: "current_user db_closed (Some 1)
             = Some \<lparr>u_id = 1, u_full_name = ''Admin'', u_role = ''admin''\<rparr>"
    by (simp add: lookup_defs db_closed_def db0_def)
  have f: "f_ticket_id (form0 ''accept'') = Some 1" by (simp add: form0_def)
  have n: "strip (or_empty (f_admin_note (form0 ''accept''))) \<noteq> []"
    by (simp add: form0_def str_defs)
  from closed_is_terminal [OF t s, where frm = "form0 ''accept''" and clk = clk0
      and sess = "Some 1" and meth = POST
      and admin = "\<lparr>u_id = 1, u_full_name = ''Admin'', u_role = ''admin''\<rparr>"
      and rs = "[Admin_tickets clk0 (Some 1) POST (form0 ''accept''),
                 Admin_tickets clk0 (Some 1) POST (form0 ''complete''),
                 Admin_tickets clk0 (Some 1) POST (form0 ''close'')]"] u n f
  show ?thesis by (simp del: run.simps)
qed

text \<open>
  C6. Assignment is set once. When an admin request on a ticket without an assigned admin
  succeeds (whatever the action), the ticket is assigned to the acting admin afterwards.
  When the ticket already has an assigned admin, an admin request leaves that id in place,
  and so does any sequence of requests to the four routes.
\<close>

theorem admin_assignment_set_once:
  assumes "get_ticket d k = Some tk"
  shows "(t_assigned_admin_id tk = None \<and> f_ticket_id frm = k
            \<and> snd (admin_tickets clk sess meth frm d)
                = Redirect ''admin_tickets'' [(''success'', ''Ticket updated successfully.'')]
          \<longrightarrow> (\<exists>admin tk'. current_user d sess = Some admin \<and> u_role admin = ''admin''
                 \<and> get_ticket (fst (admin_tickets clk sess meth frm d)) k = Some tk'
                 \<and> t_assigned_admin_id tk' = Some (u_id admin)))
       \<and> (t_assigned_admin_id tk = Some a
          \<longrightarrow> (\<exists>tk'. get_ticket (fst (admin_tickets clk sess meth frm d)) k = Some tk'
                    \<and> t_assigned_admin_id tk' = Some a)
            \<and> (\<exists>tk'. get_ticket (run rs d) k = Some tk' \<and> t_assigned_admin_id tk' = Some a))"
proof (intro conjI impI)
  assume a: "t_assigned_admin_id tk = None \<and> f_ticket_id frm = k
            \<and> snd (admin_tickets clk sess meth frm d)
                = Redirect ''admin_tickets'' [(''success'', ''Ticket updated successfully.'')]"
  then have "snd (admin_tickets clk sess meth frm d)
                = Redirect ''admin_tickets'' [(''success'', ''Ticket updated successfully.'')]"
    by simp
  from admin_tickets_success [OF this] a assms
  obtain admin where adm: "current_user d sess = Some admin" "u_role admin = ''admin''"
    and row: "get_ticket d (f_ticket_id frm) = Some tk"
    and ok: "strip (or_empty (f_admin_note frm)) \<noteq> []" "t_status tk \<noteq> ''closed''"
    and post: "admin_tickets clk sess meth frm d = admin_tickets_post clk admin frm d"
    by auto
  from admin_post_row [OF row ok, of clk admin] a adm post
  show "\<exists>admin tk'. current_user d sess = Some admin \<and> u_role admin = ''admin''
                 \<and> get_ticket (fst (admin_tickets clk sess meth frm d)) k = Some tk'
                 \<and> t_assigned_admin_id tk' = Some (u_id admin)"
    by auto
next
  assume a: "t_assigned_admin_id tk = Some a"
  have step: "\<exists>b. get_ticket (fst (serve r d')) k = Some b \<and> t_assigned_admin_id b = Some a"
    if "get_ticket d' k = Some c" and "t_assigned_admin_id c = Some a" for d' c r
  proof -
    from serve_admin_step [OF that(1), of r]
    consider "get_ticket (fst (serve r d')) k = Some c"
      | clk' admin frm' where "f_ticket_id frm' = k" "get_ticket d' (f_ticket_id frm') = Some c"
          "strip (or_empty (f_admin_note frm')) \<noteq> []" "t_status c \<noteq> ''closed''"
          "fst (serve r d') = fst (admin_tickets_post clk' admin frm' d')"
      by auto
    then show ?thesis
    proof cases
      case 1
      with that show ?thesis by simp
    next
      case 2
      from admin_post_row [OF 2(2,3,4), of clk' admin] 2(1,5) that(2)
      show ?thesis by auto
    qed
  qed
  from step [OF assms a, of "Admin_tickets clk sess meth frm"]
  show "\<exists>tk'. get_ticket (fst (admin_tickets clk sess meth frm d)) k = Some tk'
                    \<and> t_assigned_admin_id tk' = Some a"
    by simp
  show "\<exists>tk'. get_ticket (run rs d) k = Some tk' \<and> t_assigned_admin_id tk' = Some a"
    by (rule run_rows [where I = "\<lambda>b. t_assigned_admin_id b = Some a", OF step assms a])
qed

theorem admin_assignment_set_once_witness:
  "(\<exists>tk'. get_ticket (fst (admin_tickets clk0 (Some 1) POST (form0 ''accept'') db0)) (Some 1)
             = Some tk' \<and> t_assigned_admin_id tk' = Some 1)
   \<and> (\<exists>tk'. get_ticket (fst (admin_tickets clk0 (Some 4) POST (form0 ''complete'') db_assigned))
               (Some 1) = Some tk' \<and> t_assigned_admin_id tk' = Some 1)
   \<and> (\<exists>tk'. get_ticket (run [Admin_tickets clk0 (Some 4) POST (form0 ''complete''),
                               Admin_tickets clk0 (Some 4) POST (form0 ''close'')] db_assigned)
               (Some 1) = Some tk' \<and> t_assigned_admin_id tk' = Some 1)"
proof -
  have u: "current_user db0 (Some 1)
             = Some \<lparr>u_id = 1, u_full_name = ''Admin'', u_role = ''admin''\<rparr>"
    by (simp add: lookup_defs db0_def)
  have t: "get_ticket db0 (Some 1) = Some ticket0"
    by (simp add: get_ticket_def db0_def ticket0_def)
  have f: "f_ticket_id (form0 ''accept'') = Some 1" by (simp add: form0_def)
  have n: "t_assigned_admin_id ticket0 = None" by (simp add: ticket0_def)
  have t': "get_ticket db_assigned (Some 1)
              = Some (ticket0\<lparr>t_status := ''in_progress'', t_assigned_admin_id := Some 1\<rparr>)"
    by (simp add: get_ticket_def db_assigned_def db0_def ticket0_def)
  have a: "t_assigned_admin_id
             (ticket0\<lparr>t_status := ''in_progress'', t_assigned_admin_id := Some 1\<rparr>) = Some 1"
    by simp
  from admin_assignment_set_once [OF t, where frm = "form0 ''accept''" and clk = clk0
         and sess = "Some 1" and meth = POST] n f u sample_accepts(1) [of "''accept''"]
  have 1: "\<exists>tk'. get_ticket (fst (admin_tickets clk0 (Some 1) POST (form0 ''accept'') db0)) (Some 1)
             = Some tk' \<and> t_assigned_admin_id tk' = Some 1"
    by auto
  from admin_assignment_set_once [OF t', where a = 1 and frm = "form0 ''complete''"
         and clk = clk0 and sess = "Some 4" and meth = POST
         and rs = "[Admin_tickets clk0 (Some 4) POST (form0 ''complete''),
                    Admin_tickets clk0 (Some 4) POST (form0 ''close'')]"] a
  have 2: "(\<exists>tk'. get_ticket (fst (admin_tickets clk0 (Some 4) POST (form0 ''complete'') db_assigned))
               (Some 1) = Some tk' \<and> t_assigned_admin_id tk' = Some 1)
   \<and> (\<exists>tk'. get_ticket (run [Admin_tickets clk0 (Some 4) POST (form0 ''complete''),
                               Admin_tickets clk0 (Some 4) POST (form0 ''close'')] db_assigned)
               (Some 1) = Some tk' \<and> t_assigned_admin_id tk' = Some 1)"
    by blast
  from 1 2 show ?thesis by blast
qed

text \<open>
  C10. \<open>completed_at\<close> is set once, at the first passage from in_progress to resolved.
  An admin request on a ticket changes \<open>completed_at\<close> exactly when it succeeds with the
  action \<open>complete\<close> on an in_progress ticket whose \<open>completed_at\<close> is null; the new value
  is then the current WIB time and the ticket is resolved. A non-null \<open>completed_at\<close>
  survives every sequence of requests (repeated \<open>complete\<close> included). A ticket that
  starts open or in_progress with a null \<open>completed_at\<close> (as a new ticket does) has a
  null \<open>completed_at\<close> for as long as it is open or in_progress, and whenever an admin
  request then takes it from in_progress to resolved, \<open>completed_at\<close> is the WIB time of
  that request.
\<close>

theorem completed_at_set_once:
  assumes "get_ticket d k = Some tk"
  shows "(f_ticket_id frm = k \<longrightarrow>
            (\<exists>tk'. get_ticket (fst (admin_tickets clk sess meth frm d)) k = Some tk'
               \<and> t_completed_at tk'
                   = (if t_completed_at tk = None \<and> t_status tk = ''in_progress''
                         \<and> f_action frm = Some ''complete''
                         \<and> snd (admin_tickets clk sess meth frm d)
                             = Redirect ''admin_tickets''
                                 [(''success'', ''Ticket updated successfully.'')]
                      then Some (now_wib clk) else t_completed_at tk)
               \<and> (t_completed_at tk' \<noteq> t_completed_at tk \<longrightarrow> t_status tk' = ''resolved'')))
       \<and> (t_completed_at tk = Some c \<longrightarrow>
            (\<exists>tk'. get_ticket (run rs d) k = Some tk' \<and> t_completed_at tk' = Some c))
       \<and> ((t_status tk = ''open'' \<or> t_status tk = ''in_progress'') \<and> t_completed_at tk = None \<longrightarrow>
            (\<exists>tk'. get_ticket (run rs d) k = Some tk'
               \<and> (t_status tk' = ''open'' \<or> t_status tk' = ''in_progress''
                    \<longrightarrow> t_completed_at tk' = None)))
       \<and> ((t_status tk = ''open'' \<or> t_status tk = ''in_progress'') \<and> t_completed_at tk = None
            \<and> f_ticket_id frm = k \<longrightarrow>
            (\<exists>a b. get_ticket (run rs d) k = Some a
               \<and> get_ticket (fst (admin_tickets clk sess meth frm (run rs d))) k = Some b
               \<and> (t_status a = ''in_progress'' \<and> t_status b = ''resolved''
                    \<longrightarrow> t_completed_at b = Some (now_wib clk))))"
proof -
  have one: "\<exists>tk'. get_ticket (fst (admin_tickets clk sess meth frm d')) k = Some tk'
               \<and> t_completed_at tk'
                   = (if t_completed_at a = None \<and> t_status a = ''in_progress''
                         \<and> f_action frm = Some ''complete''
                         \<and> snd (admin_tickets clk sess meth frm d')
                             = Redirect ''admin_tickets''
                                 [(''success'', ''Ticket updated successfully.'')]
                      then Some (now_wib clk) else t_completed_at a)
               \<and> (t_completed_at tk' \<noteq> t_completed_at a \<longrightarrow> t_status tk' = ''resolved'')
               \<and> (t_status a = ''in_progress'' \<and> t_status tk' = ''resolved''
                    \<and> t_completed_at a = None \<longrightarrow> t_completed_at tk' = Some (now_wib clk))"
    if row: "get_ticket d' k = Some a" and k: "f_ticket_id frm = k" for d' a
  proof (cases "snd (admin_tickets clk sess meth frm d')
               = Redirect ''admin_tickets'' [(''success'', ''Ticket updated successfully.'')]")
    case False
    from admin_tickets_no_success [OF False] False row show ?thesis by simp
  next
    case True
    from admin_tickets_success [OF True] k row
    obtain admin where r: "get_ticket d' (f_ticket_id frm) = Some a"
      and ok: "strip (or_empty (f_admin_note frm)) \<noteq> []" "t_status a \<noteq> ''closed''"
      and post: "admin_tickets clk sess meth frm d' = admin_tickets_post clk admin frm d'"
      by auto
    from admin_post_row [OF r ok, of clk admin] k post True
    show ?thesis by auto
  qed
  let ?I = "\<lambda>b. t_status b = ''open'' \<or> t_status b = ''in_progress'' \<longrightarrow> t_completed_at b = None"
  have inv: "\<exists>b. get_ticket (run rs d) k = Some b \<and> ?I b" if "?I tk"
  proof (rule run_rows [where I = ?I])
    fix d' a r
    assume a: "get_ticket d' k = Some a" and i: "?I a"
    from serve_admin_step [OF a, of r]
    consider "get_ticket (fst (serve r d')) k = Some a"
      | clk' admin frm' where "f_ticket_id frm' = k" "get_ticket d' (f_ticket_id frm') = Some a"
          "strip (or_empty (f_admin_note frm')) \<noteq> []" "t_status a \<noteq> ''closed''"
          "fst (serve r d') = fst (admin_tickets_post clk' admin frm' d')"
      by auto
    then show "\<exists>b. get_ticket (fst (serve r d')) k = Some b \<and> ?I b"
    proof cases
      case 1
      with i show ?thesis by simp
    next
      case 2
      from admin_post_row [OF 2(2,3,4), of clk' admin] 2(1,5) i
      show ?thesis by (auto split: if_splits)
    qed
  next
    show "get_ticket d k = Some tk" by fact
  next
    show "?I tk" by fact
  qed
  show ?thesis
  proof (intro conjI impI)
  assume k: "f_ticket_id frm = k"
  from one [OF assms k]
  show "\<exists>tk'. get_ticket (fst (admin_tickets clk sess meth frm d)) k = Some tk'
               \<and> t_completed_at tk'
                   = (if t_completed_at tk = None \<and> t_status tk = ''in_progress''
                         \<and> f_action frm = Some ''complete''
                         \<and> snd (admin_tickets clk sess meth frm d)
                             = Redirect ''admin_tickets''
                                 [(''success'', ''Ticket updated successfully.'')]
                      then Some (now_wib clk) else t_completed_at tk)
               \<and> (t_completed_at tk' \<noteq> t_completed_at tk \<longrightarrow> t_status tk' = ''resolved'')"
    by blast
next
  assume c: "t_completed_at tk = Some c"
  have step: "\<exists>b. get_ticket (fst (serve r d')) k = Some b \<and> t_completed_at b = Some c"
    if "get_ticket d' k = Some a" and "t_completed_at a = Some c" for d' a r
  proof -
    from serve_admin_step [OF that(1), of r]
    consider "get_ticket (fst (serve r d')) k = Some a"
      | clk' admin frm' where "f_ticket_id frm' = k" "get_ticket d' (f_ticket_id frm') = Some a"
          "strip (or_empty (f_admin_note frm')) \<noteq> []" "t_status a \<noteq> ''closed''"
          "fst (serve r d') = fst (admin_tickets_post clk' admin frm' d')"
      by auto
    then show ?thesis
    proof cases
      case 1
      with that show ?thesis by simp
    next
      case 2
      from admin_post_row [OF 2(2,3,4), of clk' admin] 2(1,5) that(2)
      show ?thesis by auto
    qed
  qed
  show "\<exists>tk'. get_ticket (run rs d) k = Some tk' \<and> t_completed_at tk' = Some c"
    by (rule run_rows [where I = "\<lambda>b. t_completed_at b = Some c", OF step assms c])
next
  assume "(t_status tk = ''open'' \<or> t_status tk = ''in_progress'') \<and> t_completed_at tk = None"
  then have "?I tk" by simp
  from inv [OF this]
  show "\<exists>tk'. get_ticket (run rs d) k = Some tk'
               \<and> (t_status tk' = ''open'' \<or> t_status tk' = ''in_progress''
                    \<longrightarrow> t_completed_at tk' = None)"
    by simp
next
  assume h: "(t_status tk = ''open'' \<or> t_status tk = ''in_progress'') \<and> t_completed_at tk = None
            \<and> f_ticket_id frm = k"
  then have "?I tk" by simp
  from inv [OF this] obtain a where a: "get_ticket (run rs d) k = Some a" and i: "?I a"
    by blast
  from h have k: "f_ticket_id frm = k" by simp
  from one [OF a k] obtain b
    where b: "get_ticket (fst (admin_tickets clk sess meth frm (run rs d))) k = Some b"
      and c: "t_status a = ''in_progress'' \<and> t_status b = ''resolved''
                    \<and> t_completed_at a = None \<longrightarrow> t_completed_at b = Some (now_wib clk)"
    by blast
  from i c have "t_status a = ''in_progress'' \<and> t_status b = ''resolved''
                    \<longrightarrow> t_completed_at b = Some (now_wib clk)"
    by blast
  with a b
  show "\<exists>a b. get_ticket (run rs d) k = Some a
               \<and> get_ticket (fst (admin_tickets clk sess meth frm (run rs d))) k = Some b
               \<and> (t_status a = ''in_progress'' \<and> t_status b = ''resolved''
                    \<longrightarrow> t_completed_at b = Some (now_wib clk))"
    by blast
qed
qed

theorem completed_at_set_once_witness:
  "(\<exists>tk'. get_ticket (fst (admin_tickets clk0 (Some 4) POST (form0 ''complete'') db_assigned))
             (Some 1) = Some tk'
        \<and> t_completed_at tk' = Some (now_wib clk0) \<and> t_status tk' = ''resolved'')
   \<and> (\<exists>tk'. get_ticket (run [Admin_tickets clk1 (Some 4) POST (form0 ''complete''),
                               Admin_tickets clk1 (Some 1) POST (form0 ''accept''),
                               Admin_tickets clk1 (Some 1) POST (form0 ''close'')] db_resolved)
               (Some 1) = Some tk' \<and> t_completed_at tk' = Some (now_wib clk0))
   \<and> (\<exists>tk'. get_ticket (fst (admin_tickets clk0 (Some 1) POST (form0 ''accept'') db0)) (Some 1)
               = Some tk' \<and> t_completed_at tk' = None)"
proof -
  let ?a = "ticket0\<lparr>t_status := ''in_progress'', t_assigned_admin_id := Some 1\<rparr>"
  let ?r = "ticket0\<lparr>t_status := ''resolved'', t_completed_at := Some (now_wib clk0),
                   t_assigned_admin_id := Some 1\<rparr>"
  note ta = sample_rows(2) and tr = sample_rows(3) and t0 = sample_rows(1)
  note ok = sample_accepts(2) [of "''complete''"]
  from completed_at_set_once [OF ta, where frm = "form0 ''complete''" and clk = clk0
         and sess = "Some 4" and meth = POST] ok
  have 1: "\<exists>tk'. get_ticket (fst (admin_tickets clk0 (Some 4) POST (form0 ''complete'') db_assigned))
             (Some 1) = Some tk'
        \<and> t_completed_at tk' = Some (now_wib clk0) \<and> t_status tk' = ''resolved''"
    by (auto simp: form0_fields ticket0_def)
  from completed_at_set_once [OF tr, where c = "now_wib clk0"
         and rs = "[Admin_tickets clk1 (Some 4) POST (form0 ''complete''),
                    Admin_tickets clk1 (Some 1) POST (form0 ''accept''),
                    Admin_tickets clk1 (Some 1) POST (form0 ''close'')]"]
  have 2: "\<exists>tk'. get_ticket (run [Admin_tickets clk1 (Some 4) POST (form0 ''complete''),
                               Admin_tickets clk1 (Some 1) POST (form0 ''accept''),
                               Admin_tickets clk1 (Some 1) POST (form0 ''close'')] db_resolved)
               (Some 1) = Some tk' \<and> t_completed_at tk' = Some (now_wib clk0)"
    by (simp del: run.simps)
  from completed_at_set_once [OF t0, where frm = "form0 ''accept''" and clk = clk0
         and sess = "Some 1" and meth = POST]
  have 3: "\<exists>tk'. get_ticket (fst (admin_tickets clk0 (Some 1) POST (form0 ''accept'') db0)) (Some 1)
               = Some tk' \<and> t_completed_at tk' = None"
    by (auto simp: form0_fields ticket0_def)
  from 1 2 3 show ?thesis by blast
qed

text \<open>
  C1. The code departs from the claim on the action \<open>close\<close>. The list view of
  \<open>admin_tickets\<close> offers each action on one status only: Accept on an open ticket,
  Complete on one in progress, Close on a resolved one (the other buttons are rendered
  \<open>disabled\<close>). The POST branch makes the same check for \<open>accept\<close> and
  \<open>complete\<close>, so that \<open>complete\<close> sent for an open ticket leaves it open, but for
  \<open>close\<close> it only checks that the ticket is not closed yet. An admin's POST with
  \<open>action=close\<close> for the open ticket 1, whose Close button is disabled, is answered with
  success and takes the ticket from open to closed in one request, three places along
  \<open>open, in_progress, resolved, closed\<close>.
\<close>

theorem close_skips_steps:
  "map t_status (tickets db0) = [''open'']
   \<and> \<not> accept_disabled ticket0 \<and> complete_disabled ticket0 \<and> close_disabled ticket0
   \<and> map t_status (tickets (fst (admin_tickets clk0 (Some 1) POST (form0 ''complete'') db0)))
       = [''open'']
   \<and> snd (admin_tickets clk0 (Some 1) POST (form0 ''close'') db0)
       = Redirect ''admin_tickets'' [(''success'', ''Ticket updated successfully.'')]
   \<and> map t_status (tickets (fst (admin_tickets clk0 (Some 1) POST (form0 ''close'') db0)))
       = [''closed'']
   \<and> status_rank ''open'' = 0 \<and> status_rank ''closed'' = 3"
proof -
  have cl: "tickets (fst (admin_tickets_post clk0 \<lparr>u_id = 1, u_full_name = ''Admin'', u_role = ''admin''\<rparr>
                        (form0 ''close'') db0))
          = [ticket0\<lparr>t_status := ''closed'', t_assigned_admin_id := Some 1,
                     t_admin_note := Some ''[05 Mar 2024, 10:30 WIB] Sedang dicek'',
                     t_updated_at := Some dt0\<rparr>]"
    by (simp add: admin_tickets_post_def apply_action_def log_action_def commit_ticket_def
          add_log_def append_note_def get_ticket_def form0_def str_defs db0_def ticket0_def
          clk0_def dt0_def strftime_dbYHM_def zfill_def month_abbr_def digits.simps
          digit_char_def Let_def)
  have co: "tickets (fst (admin_tickets_post clk0 \<lparr>u_id = 1, u_full_name = ''Admin'', u_role = ''admin''\<rparr>
                        (form0 ''complete'') db0))
          = [ticket0\<lparr>t_assigned_admin_id := Some 1,
                     t_admin_note := Some ''[05 Mar 2024, 10:30 WIB] Sedang dicek'',
                     t_updated_at := Some dt0\<rparr>]"
    by (simp add: admin_tickets_post_def apply_action_def log_action_def commit_ticket_def
          add_log_def append_note_def get_ticket_def form0_def str_defs db0_def ticket0_def
          clk0_def dt0_def strftime_dbYHM_def zfill_def month_abbr_def digits.simps
          digit_char_def Let_def)
  have bt: "\<not> accept_disabled ticket0" "complete_disabled ticket0" "close_disabled ticket0"
    by (simp_all add: accept_disabled_def complete_disabled_def close_disabled_def ticket0_def)
  note post = admin_tickets_as_admin [OF sample_users(1)]
  have 1: "map t_status (tickets db0) = [''open'']"
    by (simp add: db0_def ticket0_def)
  have 2: "map t_status (tickets (fst (admin_tickets clk0 (Some 1) POST (form0 ''complete'') db0)))
             = [''open'']"
    by (simp add: post co ticket0_def)
  have 3: "map t_status (tickets (fst (admin_tickets clk0 (Some 1) POST (form0 ''close'') db0)))
             = [''closed'']"
    by (simp add: post cl)
  from 1 2 3 bt sample_accepts(1) [of "''close''"] show ?thesis
    by (simp add: status_rank_values)
qed

text \<open>
  A note the handler has written is already trimmed: it starts with the first character of
  the trimmed previous note or with the bracket of the stamp, and ends with the last
  character of the trimmed new note.
\<close>

lemma stamped_note_fixed:
  assumes "strip raw \<noteq> []"
  shows "strip (if strip prev = [] then ''['' @ ts @ ''] '' @ strip raw
                else strip prev @ [CHR 0x0A] @ ''['' @ ts @ ''] '' @ strip raw)
         = (if strip prev = [] then ''['' @ ts @ ''] '' @ strip raw
            else strip prev @ [CHR 0x0A] @ ''['' @ ts @ ''] '' @ strip raw)"
proof (rule strip_fixed)
  show "(if strip prev = [] then ''['' @ ts @ ''] '' @ strip raw
         else strip prev @ [CHR 0x0A] @ ''['' @ ts @ ''] '' @ strip raw) \<noteq> []"
    by simp
  show "\<not> isspace (hd (if strip prev = [] then ''['' @ ts @ ''] '' @ strip raw
         else strip prev @ [CHR 0x0A] @ ''['' @ ts @ ''] '' @ strip raw))"
    using strip_ends(1) [of prev] by (simp add: isspace_def)
  show "\<not> isspace (last (if strip prev = [] then ''['' @ ts @ ''] '' @ strip raw
         else strip prev @ [CHR 0x0A] @ ''['' @ ts @ ''] '' @ strip raw))"
    using strip_ends(2) [OF assms] assms by simp
qed

text \<open>
  C3, as the claim states it, fails: what is appended is not a copy of the submitted note
  but the note trimmed of surrounding whitespace. Submitted as two blanks, \<open>perlu cek\<close>
  and two blanks, the note of ticket 1 becomes \<open>[05 Mar 2024, 10:30 WIB] perlu cek\<close>.
\<close>

theorem note_stored_trimmed:
  "snd (admin_tickets clk0 (Some 1) POST
          \<lparr>f_action = Some ''accept'', f_ticket_id = Some 1,
           f_admin_note = Some ''  perlu cek  ''\<rparr> db0)
     = Redirect ''admin_tickets'' [(''success'', ''Ticket updated successfully.'')]
   \<and> map t_admin_note (tickets (fst (admin_tickets clk0 (Some 1) POST
          \<lparr>f_action = Some ''accept'', f_ticket_id = Some 1,
           f_admin_note = Some ''  perlu cek  ''\<rparr> db0)))
       = [Some ''[05 Mar 2024, 10:30 WIB] perlu cek'']
   \<and> ''[05 Mar 2024, 10:30 WIB] perlu cek'' \<noteq> ''[05 Mar 2024, 10:30 WIB] '' @ ''  perlu cek  ''"
proof -
  have "admin_tickets_post clk0 \<lparr>u_id = 1, u_full_name = ''Admin'', u_role = ''admin''\<rparr>
          \<lparr>f_action = Some ''accept'', f_ticket_id = Some 1,
           f_admin_note = Some ''  perlu cek  ''\<rparr> db0
        = (db0\<lparr>tickets := [ticket0\<lparr>t_status := ''in_progress'', t_assigned_admin_id := Some 1,
                     t_admin_note := Some ''[05 Mar 2024, 10:30 WIB] perlu cek'',
                     t_updated_at := Some dt0\<rparr>],
               activity_logs := [\<lparr>l_id = 1, l_user_id = Some 1,
                                  l_action = ''ticket_update_status'',
                                  l_detail = ''1:in_progress'', l_created_at = Some dt0\<rparr>]\<rparr>,
           Redirect ''admin_tickets'' [(''success'', ''Ticket updated successfully.'')])"
    by (simp add: admin_tickets_post_def apply_action_def log_action_def commit_ticket_def
          add_log_def append_note_def get_ticket_def fresh_id_def str_int_def str_defs db0_def
          ticket0_def clk0_def dt0_def strftime_dbYHM_def zfill_def month_abbr_def digits.simps
          digit_char_def Let_def)
  then show ?thesis
    by (simp add: admin_tickets_as_admin [OF sample_users(1)])
qed

text \<open>
  C3, amended. Admin notes are append-only. With \<open>n\<close> the submitted note trimmed of
  surrounding whitespace (it is non-empty on every successful request), a successful admin
  request (whatever the action) served at a WIB time of the years 1000 to 9999 leaves
  \<open>admin_note\<close> equal to the trimmed previous note, a line feed, the stamp
  \<open>[dd Mon YYYY, HH:MM WIB]\<close> of that WIB time, a blank and \<open>n\<close>; or to the stamp, a
  blank and \<open>n\<close> alone when the trimmed previous note is empty. After any sequence of
  requests to the four routes the trimmed note of a ticket still starts with its trimmed
  note from before: recorded text is neither removed nor altered.
\<close>

theorem admin_note_append_only:
  "(snd (admin_tickets clk sess meth frm d)
      = Redirect ''admin_tickets'' [(''success'', ''Ticket updated successfully.'')]
    \<and> valid_datetime (now_wib clk) \<and> 1000 \<le> year (now_wib clk) \<and> year (now_wib clk) \<le> 9999
    \<longrightarrow> (\<exists>tk tk'. get_ticket d (f_ticket_id frm) = Some tk
           \<and> get_ticket (fst (admin_tickets clk sess meth frm d)) (f_ticket_id frm) = Some tk'
           \<and> strip (or_empty (f_admin_note frm)) \<noteq> []
           \<and> t_admin_note tk'
               = Some (if strip (or_empty (t_admin_note tk)) = []
                       then ''['' @ wib_stamp (now_wib clk) @ ''] ''
                            @ strip (or_empty (f_admin_note frm))
                       else strip (or_empty (t_admin_note tk)) @ [CHR 0x0A]
                            @ ''['' @ wib_stamp (now_wib clk) @ ''] ''
                            @ strip (or_empty (f_admin_note frm)))))
   \<and> (get_ticket d k = Some told
      \<longrightarrow> (\<exists>tk' rest. get_ticket (run rs d) k = Some tk'
             \<and> strip (or_empty (t_admin_note tk'))
                 = strip (or_empty (t_admin_note told)) @ rest))"
proof (intro conjI impI)
  assume a: "snd (admin_tickets clk sess meth frm d)
      = Redirect ''admin_tickets'' [(''success'', ''Ticket updated successfully.'')]
    \<and> valid_datetime (now_wib clk) \<and> 1000 \<le> year (now_wib clk) \<and> year (now_wib clk) \<le> 9999"
  then have ok: "snd (admin_tickets clk sess meth frm d)
      = Redirect ''admin_tickets'' [(''success'', ''Ticket updated successfully.'')]"
    and v: "valid_datetime (now_wib clk)"
    and y: "1000 \<le> year (now_wib clk)" "year (now_wib clk) \<le> 9999"
    by simp_all
  note stamp = strftime_dbYHM_stamp [OF v y]
  from admin_tickets_success [OF ok]
  obtain admin tk where row: "get_ticket d (f_ticket_id frm) = Some tk"
    and n: "strip (or_empty (f_admin_note frm)) \<noteq> []" and s: "t_status tk \<noteq> ''closed''"
    and post: "admin_tickets clk sess meth frm d = admin_tickets_post clk admin frm d"
    by auto
  from admin_post_row [OF row n s, of clk admin] post
  obtain tk' where r: "get_ticket (fst (admin_tickets clk sess meth frm d)) (f_ticket_id frm)
                         = Some tk'"
    and nt: "t_admin_note tk'
               = Some (if strip (or_empty (t_admin_note tk)) = []
                       then ''['' @ strftime_dbYHM (now_wib clk) @ ''] ''
                            @ strip (or_empty (f_admin_note frm))
                       else strip (or_empty (t_admin_note tk)) @ [CHR 0x0A]
                            @ ''['' @ strftime_dbYHM (now_wib clk) @ ''] ''
                            @ strip (or_empty (f_admin_note frm)))"
    by auto
  from nt have "t_admin_note tk'
               = Some (if strip (or_empty (t_admin_note tk)) = []
                       then ''['' @ wib_stamp (now_wib clk) @ ''] ''
                            @ strip (or_empty (f_admin_note frm))
                       else strip (or_empty (t_admin_note tk)) @ [CHR 0x0A]
                            @ ''['' @ wib_stamp (now_wib clk) @ ''] ''
                            @ strip (or_empty (f_admin_note frm)))"
    unfolding stamp .
  with row r n
  show "\<exists>tk tk'. get_ticket d (f_ticket_id frm) = Some tk
           \<and> get_ticket (fst (admin_tickets clk sess meth frm d)) (f_ticket_id frm) = Some tk'
           \<and> strip (or_empty (f_admin_note frm)) \<noteq> []
           \<and> t_admin_note tk'
               = Some (if strip (or_empty (t_admin_note tk)) = []
                       then ''['' @ wib_stamp (now_wib clk) @ ''] ''
                            @ strip (or_empty (f_admin_note frm))
                       else strip (or_empty (t_admin_note tk)) @ [CHR 0x0A]
                            @ ''['' @ wib_stamp (now_wib clk) @ ''] ''
                            @ strip (or_empty (f_admin_note frm)))"
    by blast
next
  assume row0: "get_ticket d k = Some told"
  let ?I = "\<lambda>b. \<exists>rest. strip (or_empty (t_admin_note b))
                        = strip (or_empty (t_admin_note told)) @ rest"
  have step: "\<exists>b. get_ticket (fst (serve r d')) k = Some b \<and> ?I b"
    if "get_ticket d' k = Some a" and "?I a" for d' a r
  proof -
    from serve_admin_step [OF that(1), of r]
    consider "get_ticket (fst (serve r d')) k = Some a"
      | clk' admin frm' where "f_ticket_id frm' = k" "get_ticket d' (f_ticket_id frm') = Some a"
          "strip (or_empty (f_admin_note frm')) \<noteq> []" "t_status a \<noteq> ''closed''"
          "fst (serve r d') = fst (admin_tickets_post clk' admin frm' d')"
      by auto
    then show ?thesis
    proof cases
      case 1
      with that show ?thesis by simp
    next
      case 2
      let ?new = "if strip (or_empty (t_admin_note a)) = []
                  then ''['' @ strftime_dbYHM (now_wib clk') @ ''] ''
                       @ strip (or_empty (f_admin_note frm'))
                  else strip (or_empty (t_admin_note a)) @ [CHR 0x0A]
                       @ ''['' @ strftime_dbYHM (now_wib clk') @ ''] ''
                       @ strip (or_empty (f_admin_note frm'))"
      from admin_post_row [OF 2(2,3,4), of clk' admin] 2(1,5)
      obtain b where r: "get_ticket (fst (serve r d')) k = Some b"
        and nb: "t_admin_note b = Some ?new"
        by auto
      have fixed: "strip ?new = ?new" using 2(3) by (rule stamped_note_fixed)
      have "\<exists>rest. ?new = strip (or_empty (t_admin_note a)) @ rest" by auto
      with that(2) have "\<exists>rest. ?new = strip (or_empty (t_admin_note told)) @ rest"
        by (metis append.assoc)
      with fixed nb have "?I b" by (simp add: or_empty_def)
      with r show ?thesis by blast
    qed
  qed
  have "\<exists>b. get_ticket (run rs d) k = Some b \<and> ?I b"
  proof (rule run_rows [where I = ?I])
    fix d' a r
    assume "get_ticket d' k = Some a" and "?I a"
    then show "\<exists>b. get_ticket (fst (serve r d')) k = Some b \<and> ?I b" by (rule step)
  next
    show "get_ticket d k = Some told" by fact
  next
    show "?I told" by simp
  qed
  then show "\<exists>tk' rest. get_ticket (run rs d) k = Some tk'
             \<and> strip (or_empty (t_admin_note tk'))
                 = strip (or_empty (t_admin_note told)) @ rest"
    by blast
qed

theorem admin_note_append_only_witness:
  "(\<exists>tk'. get_ticket (fst (admin_tickets clk0 (Some 1) POST (form0 ''accept'') db0)) (Some 1)
            = Some tk'
        \<and> t_admin_note tk' = Some ''[05 Mar 2024, 10:30 WIB] Sedang dicek'')
   \<and> (\<exists>tk'. get_ticket (fst (admin_tickets clk0 (Some 1) POST (form0 ''accept'') db_noted))
               (Some 1) = Some tk'
        \<and> t_admin_note tk'
            = Some (''catatan lama'' @ [CHR 0x0A] @ ''[05 Mar 2024, 10:30 WIB] Sedang dicek''))
   \<and> (\<exists>tk' rest. get_ticket (run [Admin_tickets clk0 (Some 1) POST (form0 ''accept''),
                                    Admin_tickets clk1 (Some 4) POST (form0 ''complete'')]
                                 db_noted) (Some 1) = Some tk'
          \<and> strip (or_empty (t_admin_note tk')) = ''catatan lama'' @ rest)"
proof -
  have p: "strip (or_empty (t_admin_note ticket0)) = []"
    and q: "strip (or_empty (t_admin_note (ticket0\<lparr>t_admin_note := Some ''  catatan lama ''\<rparr>)))
            = ''catatan lama''"
    by (simp_all add: ticket0_def str_defs)
  have q': "strip (or_empty (Some ''  catatan lama '')) = ''catatan lama''"
    by (simp add: str_defs)
  have un: "current_user db_noted (Some 1)
              = Some \<lparr>u_id = 1, u_full_name = ''Admin'', u_role = ''admin''\<rparr>"
    by (simp add: lookup_defs db_noted_def db0_def)
  have okn: "snd (admin_tickets clk0 (Some 1) POST (form0 ''accept'') db_noted)
               = Redirect ''admin_tickets'' [(''success'', ''Ticket updated successfully.'')]"
    by (rule admin_tickets_accepts [OF un,
          where tk = "ticket0\<lparr>t_admin_note := Some ''  catatan lama ''\<rparr>"])
       (simp_all add: form0_note form0_fields sample_rows, simp add: ticket0_def)
  from admin_note_append_only [where frm = "form0 ''accept''" and clk = clk0
      and sess = "Some 1" and meth = POST and d = db0 and k = None and rs = "[]"]
    sample_accepts(1) [of "''accept''"] sample_clock
  have 1: "\<exists>tk'. get_ticket (fst (admin_tickets clk0 (Some 1) POST (form0 ''accept'') db0)) (Some 1)
            = Some tk'
        \<and> t_admin_note tk' = Some ''[05 Mar 2024, 10:30 WIB] Sedang dicek''"
    by (auto simp: form0_fields form0_note sample_rows sample_wib_stamp p)
  from admin_note_append_only [where frm = "form0 ''accept''" and clk = clk0
      and sess = "Some 1" and meth = POST and d = db_noted and k = None and rs = "[]"]
    okn sample_clock
  have 2: "\<exists>tk'. get_ticket (fst (admin_tickets clk0 (Some 1) POST (form0 ''accept'') db_noted))
               (Some 1) = Some tk'
        \<and> t_admin_note tk'
            = Some (''catatan lama'' @ [CHR 0x0A] @ ''[05 Mar 2024, 10:30 WIB] Sedang dicek'')"
    by (auto simp: form0_fields form0_note sample_rows sample_wib_stamp q')
  from admin_note_append_only [where d = db_noted and k = "Some 1"
      and told = "ticket0\<lparr>t_admin_note := Some ''  catatan lama ''\<rparr>"
      and rs = "[Admin_tickets clk0 (Some 1) POST (form0 ''accept''),
                 Admin_tickets clk1 (Some 4) POST (form0 ''complete'')]"] sample_rows(5)
  have 3: "\<exists>tk' rest. get_ticket (run [Admin_tickets clk0 (Some 1) POST (form0 ''accept''),
                                    Admin_tickets clk1 (Some 4) POST (form0 ''complete'')]
                                 db_noted) (Some 1) = Some tk'
          \<and> strip (or_empty (t_admin_note tk')) = ''catatan lama'' @ rest"
    unfolding q by blast
  from 1 2 3 show ?thesis by blast
qed

section \<open>Creating tickets\<close>

text \<open>
  C7, as the claim states it, fails. The application refuses a request body longer than
  \<open>MAX_CONTENT_LENGTH\<close> (2 MiB) as soon as the handler reads the form: a POST of 3 MiB
  with the description \<open>Tugas hilang\<close> and a large image attached is answered 413 and
  creates no ticket, although its trimmed description is not empty. And the title is
  the text before the first line feed: for a description whose lines end in carriage
  return and line feed, as a browser submits them, the title ends in the carriage return.
\<close>

theorem ticket_new_too_large:
  "strip (or_empty (Some ''Tugas hilang'')) = ''Tugas hilang''
   \<and> ticket_new clk0 (Some 2) POST
        \<lparr>f_content_length = 3 * 1024 * 1024, f_category = None,
         f_description = Some ''Tugas hilang'',
         f_attachment = Some \<lparr>up_filename = ''layar.png'', up_secure_filename = ''layar.png'',
                               up_ext = ''.png'', up_size = 3145000\<rparr>\<rparr> db0
       = (db0, Payload_too_large)
   \<and> map t_title (tickets (fst (ticket_new clk0 (Some 2) POST
        \<lparr>f_content_length = 64, f_category = None,
         f_description = Some (''Tugas hilang'' @ [CHR 0x0D, CHR 0x0A] @ ''sejak kemarin''),
         f_attachment = None\<rparr> db0)))
       = [''Tidak bisa login'', ''Tugas hilang'' @ [CHR 0x0D]]"
  by (simp add: ticket_new_def ticket_new_post_def MAX_CONTENT_LENGTH_def lookup_defs str_defs
        first_line_def fresh_id_def add_log_def db0_def ticket0_def Let_def)

text \<open>
  C7, amended. For a POST to \<open>ticket_new\<close> by a logged-in user: a request body longer
  than 2 MiB is answered 413 and leaves the database as it was. For a body of at most
  2 MiB, an empty trimmed description creates nothing and leaves the database as it was;
  otherwise exactly one row is added to the ticket table, under a fresh id: its status is
  open, its owner is the logged-in user, its description is the trimmed text, and, when
  the description holds no carriage return, its title is the first line of the
  description (the text before the first line feed), cut to 120 characters with three
  dots appended when that line is longer than 120.
\<close>

theorem ticket_new_creates_one:
  assumes "current_user d sess = Some usr"
  shows "(MAX_CONTENT_LENGTH < f_content_length frm \<longrightarrow>
            ticket_new clk sess POST frm d = (d, Payload_too_large))
       \<and> (f_content_length frm \<le> MAX_CONTENT_LENGTH
            \<and> strip (or_empty (f_description frm)) = [] \<longrightarrow>
            fst (ticket_new clk sess POST frm d) = d)
       \<and> (f_content_length frm \<le> MAX_CONTENT_LENGTH
            \<and> strip (or_empty (f_description frm)) \<noteq> [] \<longrightarrow>
            (\<exists>t. tickets (fst (ticket_new clk sess POST frm d)) = tickets d @ [t]
               \<and> t_id t \<notin> set (map t_id (tickets d))
               \<and> t_status t = ''open'' \<and> t_user_id t = u_id usr
               \<and> t_description t = strip (or_empty (f_description frm))
               \<and> (CHR 0x0D \<notin> set (t_description t) \<longrightarrow>
                    t_title t
                      = (if 120 < length (takeWhile (\<lambda>c. c \<noteq> CHR 0x0A) (t_description t))
                         then take 120 (takeWhile (\<lambda>c. c \<noteq> CHR 0x0A) (t_description t))
                              @ ''...''
                         else takeWhile (\<lambda>c. c \<noteq> CHR 0x0A) (t_description t)))))"
proof -
  have p: "ticket_new clk sess POST frm d = ticket_new_post clk usr frm d"
    using assms by (simp add: ticket_new_def current_user_logged_in)
  show ?thesis
  proof (intro conjI impI)
    assume "MAX_CONTENT_LENGTH < f_content_length frm"
    then show "ticket_new clk sess POST frm d = (d, Payload_too_large)"
      by (simp add: p ticket_new_post_too_large)
  next
    assume "f_content_length frm \<le> MAX_CONTENT_LENGTH
            \<and> strip (or_empty (f_description frm)) = []"
    then show "fst (ticket_new clk sess POST frm d) = d"
      by (simp add: p ticket_new_post_rejected)
  next
    assume a: "f_content_length frm \<le> MAX_CONTENT_LENGTH
            \<and> strip (or_empty (f_description frm)) \<noteq> []"
    then have s: "f_content_length frm \<le> MAX_CONTENT_LENGTH"
      and n: "strip (or_empty (f_description frm)) \<noteq> []"
      by simp_all
    from ticket_new_post_created [OF s n, of clk usr d] fresh_id_fresh [of "map t_id (tickets d)"]
    obtain t where t: "tickets (fst (ticket_new_post clk usr frm d)) = tickets d @ [t]"
      "t_id t \<notin> set (map t_id (tickets d))" "t_status t = ''open''" "t_user_id t = u_id usr"
      "t_description t = strip (or_empty (f_description frm))"
      "t_title t = (if 120 < length (first_line (strip (or_empty (f_description frm))))
                    then take 120 (first_line (strip (or_empty (f_description frm)))) @ ''...''
                    else first_line (strip (or_empty (f_description frm))))"
      by auto
    have "tickets (fst (ticket_new clk sess POST frm d)) = tickets d @ [t]
               \<and> t_id t \<notin> set (map t_id (tickets d))
               \<and> t_status t = ''open'' \<and> t_user_id t = u_id usr
               \<and> t_description t = strip (or_empty (f_description frm))
               \<and> (CHR 0x0D \<notin> set (t_description t) \<longrightarrow>
                    t_title t
                      = (if 120 < length (takeWhile (\<lambda>c. c \<noteq> CHR 0x0A) (t_description t))
                         then take 120 (takeWhile (\<lambda>c. c \<noteq> CHR 0x0A) (t_description t))
                              @ ''...''
                         else takeWhile (\<lambda>c. c \<noteq> CHR 0x0A) (t_description t)))"
      unfolding p using t by (simp add: first_line_def)
    then show "\<exists>t. tickets (fst (ticket_new clk sess POST frm d)) = tickets d @ [t]
               \<and> t_id t \<notin> set (map t_id (tickets d))
               \<and> t_status t = ''open'' \<and> t_user_id t = u_id usr
               \<and> t_description t = strip (or_empty (f_description frm))
               \<and> (CHR 0x0D \<notin> set (t_description t) \<longrightarrow>
                    t_title t
                      = (if 120 < length (takeWhile (\<lambda>c. c \<noteq> CHR 0x0A) (t_description t))
                         then take 120 (takeWhile (\<lambda>c. c \<noteq> CHR 0x0A) (t_description t))
                              @ ''...''
                         else takeWhile (\<lambda>c. c \<noteq> CHR 0x0A) (t_description t)))"
      by blast
  qed
qed

theorem ticket_new_creates_one_witness:
  "ticket_new clk0 (Some 2) POST
      \<lparr>f_content_length = 3 * 1024 * 1024, f_category = None,
       f_description = Some ''Tugas hilang'', f_attachment = None\<rparr> db0
     = (db0, Payload_too_large)
   \<and> fst (ticket_new clk0 (Some 2) POST
          \<lparr>f_content_length = 64, f_category = None, f_description = Some ''   '',
           f_attachment = None\<rparr> db0) = db0
   \<and> (\<exists>t. tickets (fst (ticket_new clk0 (Some 2) POST
                \<lparr>f_content_length = 64, f_category = Some ''Tugas'',
                 f_description = Some (''  Tugas hilang'' @ [CHR 0x0A] @ ''sejak kemarin  ''),
                 f_attachment = None\<rparr> db0)) = tickets db0 @ [t]
         \<and> t_status t = ''open'' \<and> t_user_id t = 2 \<and> t_title t = ''Tugas hilang'')
   \<and> (\<exists>t. tickets (fst (ticket_new clk0 (Some 2) POST
                \<lparr>f_content_length = 200, f_category = None,
                 f_description = Some (replicate 130 (CHR ''a'')),
                 f_attachment = None\<rparr> db0)) = tickets db0 @ [t]
         \<and> t_title t = replicate 120 (CHR ''a'') @ ''...'')"
proof -
  have e: "strip (or_empty (Some ''   '')) = []" by (simp add: str_defs)
  have l: "strip (or_empty (Some (''  Tugas hilang'' @ [CHR 0x0A] @ ''sejak kemarin  '')))
             = ''Tugas hilang'' @ [CHR 0x0A] @ ''sejak kemarin''"
    by (simp add: str_defs)
  have "strip (replicate 130 (CHR ''a'')) = replicate 130 (CHR ''a'')"
    by (rule strip_fixed) (simp_all add: isspace_def hd_replicate last_replicate)
  then have a: "strip (or_empty (Some (replicate 130 (CHR ''a'')))) = replicate 130 (CHR ''a'')"
    by (simp add: or_empty_def)
  have m: "MAX_CONTENT_LENGTH < 3 * 1024 * 1024" "64 \<le> MAX_CONTENT_LENGTH"
    "200 \<le> MAX_CONTENT_LENGTH"
    by (simp_all add: MAX_CONTENT_LENGTH_def)
  note u = sample_users(2)
  from ticket_new_creates_one [OF u, where clk = clk0
     and frm = "\<lparr>f_content_length = 3 * 1024 * 1024, f_category = None,
                 f_description = Some ''Tugas hilang'', f_attachment = None\<rparr>"] m(1)
  have 0: "ticket_new clk0 (Some 2) POST
      \<lparr>f_content_length = 3 * 1024 * 1024, f_category = None,
       f_description = Some ''Tugas hilang'', f_attachment = None\<rparr> db0
     = (db0, Payload_too_large)"
    by simp
  from ticket_new_creates_one [OF u, where clk = clk0
     and frm = "\<lparr>f_content_length = 64, f_category = None, f_description = Some ''   '',
                 f_attachment = None\<rparr>"] e m(2)
  have 1: "fst (ticket_new clk0 (Some 2) POST
          \<lparr>f_content_length = 64, f_category = None, f_description = Some ''   '',
           f_attachment = None\<rparr> db0) = db0"
    by simp
  from ticket_new_creates_one [OF u, where clk = clk0
     and frm = "\<lparr>f_content_length = 64, f_category = Some ''Tugas'',
                 f_description = Some (''  Tugas hilang'' @ [CHR 0x0A] @ ''sejak kemarin  ''),
                 f_attachment = None\<rparr>"] l m(2)
  have 2: "\<exists>t. tickets (fst (ticket_new clk0 (Some 2) POST
                \<lparr>f_content_length = 64, f_category = Some ''Tugas'',
                 f_description = Some (''  Tugas hilang'' @ [CHR 0x0A] @ ''sejak kemarin  ''),
                 f_attachment = None\<rparr> db0)) = tickets db0 @ [t]
         \<and> t_status t = ''open'' \<and> t_user_id t = 2 \<and> t_title t = ''Tugas hilang''"
    by auto
  from ticket_new_creates_one [OF u, where clk = clk0
     and frm = "\<lparr>f_content_length = 200, f_category = None,
                 f_description = Some (replicate 130 (CHR ''a'')),
                 f_attachment = None\<rparr>"] a m(3)
  have 3: "\<exists>t. tickets (fst (ticket_new clk0 (Some 2) POST
                \<lparr>f_content_length = 200, f_category = None,
                 f_description = Some (replicate 130 (CHR ''a'')),
                 f_attachment = None\<rparr> db0)) = tickets db0 @ [t]
         \<and> t_title t = replicate 120 (CHR ''a'') @ ''...''"
    by auto
  from 0 1 2 3 show ?thesis by blast
qed

section \<open>Ticket numbers\<close>

text \<open>
  C2, as the claim states it, fails. \<open>{ticket.id:03d}\<close> pads to at least three digits, so
  ticket 1000 created on 5 March 2024 gets the twelve characters \<open>202403051000\<close>. For a
  ticket without \<open>created_at\<close> the prefix is the date of the request that renders the
  number, not a date of the ticket: the same ticket is numbered \<open>20240305001\<close> on 5 March
  and \<open>20240306001\<close> on 6 March. The stored \<open>created_at\<close> is a naive UTC reading, which
  \<open>astimezone\<close> takes for local time of the server: the ticket created at 18:00 UTC on
  5 March, which is 01:00 on 6 March in WIB, is numbered \<open>20240306001\<close> on a server whose
  zone is UTC and \<open>20240305001\<close> on a server whose zone is WIB. And \<open>%Y\<close> does not pad:
  a \<open>created_at\<close> of the year 999 gives the ten characters \<open>9990305001\<close>.
\<close>

theorem ticket_number_longer:
  "format_ticket_number 0 clk0 (ticket0\<lparr>t_id := 1000\<rparr>) = ''202403051000''
   \<and> length (format_ticket_number 0 clk0 (ticket0\<lparr>t_id := 1000\<rparr>)) = 12
   \<and> format_ticket_number 0 clk0 (ticket0\<lparr>t_created_at := None\<rparr>) = ''20240305001''
   \<and> format_ticket_number 0 clk1 (ticket0\<lparr>t_created_at := None\<rparr>) = ''20240306001''
   \<and> format_ticket_number 0 clk0 (ticket0\<lparr>t_created_at := Some (dt0\<lparr>hour := 18\<rparr>)\<rparr>)
       = ''20240306001''
   \<and> format_ticket_number 420 clk0 (ticket0\<lparr>t_created_at := Some (dt0\<lparr>hour := 18\<rparr>)\<rparr>)
       = ''20240305001''
   \<and> format_ticket_number 0 clk0 (ticket0\<lparr>t_created_at := Some (dt0\<lparr>year := 999\<rparr>)\<rparr>)
       = ''9990305001''"
  by (simp add: format_ticket_number_def astimezone_def add_minutes_def shift_days_def
        next_day_def days_in_month_def WIB_def ticket0_def
        clk0_def clk1_def dt0_def strftime_Ymd_def format_03d_def zfill_def digits.simps
        digit_char_def Let_def numeral_2_eq_2)

text \<open>
  C2, amended. For a ticket with an id from 0 to 999 whose \<open>created_at\<close> is a naive UTC
  reading (as \<open>utcnow\<close> stores it) of the years 1000 to 9998, on a server whose local zone
  is UTC: the number is the date of the wall clock 420 minutes ahead of \<open>created_at\<close>,
  which is that instant in GMT+7, as the eight characters \<open>YYYYMMDD\<close>, followed by the
  id in three digits, eleven characters in all. For a ticket whose \<open>created_at\<close> is
  null, whatever the server's zone, the prefix is the current WIB date (of the years 1000
  to 9999) and the number again has eleven characters.
\<close>

theorem format_ticket_number_shape:
  assumes "0 \<le> t_id t" and "t_id t \<le> 999"
  shows "(t_created_at t = Some dt \<and> tzinfo dt = None \<and> valid_datetime dt
            \<and> 1000 \<le> year dt \<and> year dt \<le> 9998
          \<longrightarrow> (\<exists>w. valid_datetime w \<and> wall_minutes w = wall_minutes dt + 420
                 \<and> format_ticket_number 0 clk t = yyyymmdd w @ three_digits (nat (t_id t))
                 \<and> length (format_ticket_number 0 clk t) = 11))
       \<and> (t_created_at t = None \<and> valid_datetime (now_wib clk)
            \<and> 1000 \<le> year (now_wib clk) \<and> year (now_wib clk) \<le> 9999
          \<longrightarrow> format_ticket_number sys clk t
                = yyyymmdd (now_wib clk) @ three_digits (nat (t_id t))
              \<and> length (format_ticket_number sys clk t) = 11)"
proof (intro conjI impI)
  note f = format_03d_three [OF assms]
  {
    assume a: "t_created_at t = Some dt \<and> tzinfo dt = None \<and> valid_datetime dt
            \<and> 1000 \<le> year dt \<and> year dt \<le> 9998"
    then have "\<exists>w. astimezone 0 WIB dt = Some w \<and> valid_datetime w
           \<and> wall_minutes w = wall_minutes dt + 420 \<and> tzinfo w = Some WIB
           \<and> year dt \<le> year w \<and> year w \<le> year dt + 1"
      by (intro astimezone_utc) simp_all
    then obtain w where w: "astimezone 0 WIB dt = Some w" "valid_datetime w"
      "wall_minutes w = wall_minutes dt + 420" "year dt \<le> year w" "year w \<le> year dt + 1"
      by blast
    from w(4,5) a have y: "1000 \<le> year w" "year w \<le> 9999" by simp_all
    from w(2) days_in_month_bounds(2) [of "year w" "month w"]
    have "month w \<le> 12" "day w \<le> 31" by (simp_all add: valid_datetime_def)
    from strftime_Ymd_yyyymmdd [OF y this] a w(1)
    have e: "format_ticket_number 0 clk t = yyyymmdd w @ three_digits (nat (t_id t))"
      by (simp add: format_ticket_number_def f)
    then have "length (format_ticket_number 0 clk t) = 11"
      by (simp add: length_yyyymmdd length_three_digits)
    with w(2,3) e
    show "\<exists>w. valid_datetime w \<and> wall_minutes w = wall_minutes dt + 420
                 \<and> format_ticket_number 0 clk t = yyyymmdd w @ three_digits (nat (t_id t))
                 \<and> length (format_ticket_number 0 clk t) = 11"
      by blast
  }
  {
    assume a: "t_created_at t = None \<and> valid_datetime (now_wib clk)
            \<and> 1000 \<le> year (now_wib clk) \<and> year (now_wib clk) \<le> 9999"
    then have y: "1000 \<le> year (now_wib clk)" "year (now_wib clk) \<le> 9999" by simp_all
    from a days_in_month_bounds(2) [of "year (now_wib clk)" "month (now_wib clk)"]
    have "month (now_wib clk) \<le> 12" "day (now_wib clk) \<le> 31"
      by (simp_all add: valid_datetime_def)
    from strftime_Ymd_yyyymmdd [OF y this] a
    have e: "format_ticket_number sys clk t
                = yyyymmdd (now_wib clk) @ three_digits (nat (t_id t))"
      by (simp add: format_ticket_number_def f)
    then show "format_ticket_number sys clk t
                = yyyymmdd (now_wib clk) @ three_digits (nat (t_id t))" .
    from e show "length (format_ticket_number sys clk t) = 11"
      by (simp add: length_yyyymmdd length_three_digits)
  }
qed

theorem format_ticket_number_shape_witness:
  "format_ticket_number 0 clk0 (ticket0\<lparr>t_id := 7, t_created_at := Some (dt0\<lparr>hour := 18\<rparr>)\<rparr>)
     = ''20240306007''
   \<and> (\<exists>w. valid_datetime w \<and> wall_minutes w = wall_minutes (dt0\<lparr>hour := 18\<rparr>) + 420
         \<and> format_ticket_number 0 clk0
              (ticket0\<lparr>t_id := 7, t_created_at := Some (dt0\<lparr>hour := 18\<rparr>)\<rparr>)
            = yyyymmdd w @ three_digits 7)
   \<and> length (format_ticket_number 0 clk0
               (ticket0\<lparr>t_id := 7, t_created_at := Some (dt0\<lparr>hour := 18\<rparr>)\<rparr>)) = 11
   \<and> format_ticket_number 0 clk0 (ticket0\<lparr>t_created_at := None\<rparr>) = ''20240305001''"
proof -
  let ?t = "ticket0\<lparr>t_id := 7, t_created_at := Some (dt0\<lparr>hour := 18\<rparr>)\<rparr>"
  have i: "0 \<le> t_id ?t" "t_id ?t \<le> 999" by simp_all
  have c: "t_created_at ?t = Some (dt0\<lparr>hour := 18\<rparr>)" "tzinfo (dt0\<lparr>hour := 18\<rparr>) = None"
    by (simp_all add: dt0_def)
  have v: "valid_datetime (dt0\<lparr>hour := 18\<rparr>)"
    by (simp add: valid_datetime_def days_in_month_def dt0_def)
  have y: "1000 \<le> year (dt0\<lparr>hour := 18\<rparr>)" "year (dt0\<lparr>hour := 18\<rparr>) \<le> 9998"
    by (simp_all add: dt0_def)
  from format_ticket_number_shape [OF i, where dt = "dt0\<lparr>hour := 18\<rparr>" and clk = clk0] c v y
  have 1: "\<exists>w. valid_datetime w \<and> wall_minutes w = wall_minutes (dt0\<lparr>hour := 18\<rparr>) + 420
         \<and> format_ticket_number 0 clk0 ?t = yyyymmdd w @ three_digits 7"
    and 2: "length (format_ticket_number 0 clk0 ?t) = 11"
    by auto
  have 3: "format_ticket_number 0 clk0 ?t = ''20240306007''"
    by (simp add: format_ticket_number_def astimezone_def add_minutes_def shift_days_def
          next_day_def days_in_month_def WIB_def ticket0_def dt0_def strftime_Ymd_def
          format_03d_def zfill_def digits.simps digit_char_def Let_def numeral_2_eq_2)
  have j: "0 \<le> t_id (ticket0\<lparr>t_created_at := None\<rparr>)"
    "t_id (ticket0\<lparr>t_created_at := None\<rparr>) \<le> 999"
    by (simp_all add: ticket0_def)
  have n: "valid_datetime (now_wib clk0)" "1000 \<le> year (now_wib clk0)"
    "year (now_wib clk0) \<le> 9999"
    by (simp_all add: valid_datetime_def days_in_month_def clk0_def dt0_def)
  from format_ticket_number_shape [OF j, where sys = 0 and clk = clk0] n
  have "format_ticket_number 0 clk0 (ticket0\<lparr>t_created_at := None\<rparr>)
          = yyyymmdd (now_wib clk0) @ three_digits (nat (t_id (ticket0\<lparr>t_created_at := None\<rparr>)))"
    by simp
  then have 4: "format_ticket_number 0 clk0 (ticket0\<lparr>t_created_at := None\<rparr>) = ''20240305001''"
    by (simp add: clk0_def dt0_def ticket0_def yyyymmdd_def four_digits_def three_digits_def
          two_digits_def decimal_digit_def)
  from 1 2 3 4 show ?thesis by blast
qed

end
